theory Spec2Isabelle
  imports Main "HOL-Library.Word" "HOL-Library.Sublist"
begin

unbundle bit_operations_syntax

section \<open>Data model of pharod (main.go)\<close>

text \<open>
  The three global tables of \<^verbatim>\<open>main.go\<close> are Go maps. They are modelled as partial
  functions; a \<^verbatim>\<open>range\<close> loop over a Go map visits every key once, in an order the
  runtime chooses, so every such loop takes the visiting order as an explicit list.

  A source address is always an IPv4 address: it is \<^verbatim>\<open>SourceStartIP\<close> or a result of
  \<^verbatim>\<open>succIP\<close>. The table \<^verbatim>\<open>sourceAddrs\<close> is keyed in Go by the dotted-quad text of
  the address (\<^verbatim>\<open>nextIP.String()\<close>), which \<^verbatim>\<open>net.ParseIP\<close> reads back to the same four
  bytes, so the model keys the table by the four bytes themselves.

  Go's \<^verbatim>\<open>int\<close> and \<^verbatim>\<open>int64\<close> port numbers are only compared and converted, never
  computed with, so they are mathematical integers here (the conversion \<^verbatim>\<open>int(x)\<close> of an
  \<^verbatim>\<open>int64\<close> is the identity on the 64-bit platforms the program runs on).
\<close>

type_synonym byte = "8 word"

datatype ip4 = IPv4 byte byte byte byte

text \<open>A \<^verbatim>\<open>net.IP\<close> of a destination, as the byte slice Go holds (4 or 16 bytes).\<close>

type_synonym netIP = "byte list"

record 'ip TCPAddr =
  IP :: 'ip
  Port :: int
  Zone :: string

type_synonym srcAddr = "ip4 TCPAddr"
type_synonym destAddr = "netIP TCPAddr"

text \<open>
  \<^verbatim>\<open>type Listener struct\<close>. The wait group and the channels belong to the goroutines
  of \<^verbatim>\<open>Start\<close> and are not part of the sequential state; \<open>tcpListener\<close> records
  whether the field \<^verbatim>\<open>tcpListener\<close> is non-nil.
\<close>

record Listener =
  DNSName :: string
  Src :: srcAddr
  Dest :: destAddr
  tcpListener :: bool

text \<open>\<^verbatim>\<open>docker.APIPort\<close> and the fields of \<^verbatim>\<open>docker.Container\<close> the program reads;
  \<open>Ports\<close> is the result of \<^verbatim>\<open>c.NetworkSettings.PortMappingAPI()\<close>.\<close>

record APIPort =
  PrivatePort :: int
  PublicPort :: int
  PortType :: string
  PortIP :: string

record Container =
  ID :: string
  Name :: string
  Ports :: "APIPort list"

type_synonym claims = "int \<rightharpoonup> destAddr"
type_synonym addrTable = "ip4 \<rightharpoonup> claims"

text \<open>The global variables \<^verbatim>\<open>sourceAddrs\<close>, \<^verbatim>\<open>dnsZone\<close> and \<^verbatim>\<open>containerListeners\<close>.\<close>

record state =
  sourceAddrs :: addrTable
  dnsZone :: "string \<rightharpoonup> ip4"
  containerListeners :: "string \<rightharpoonup> Listener"

text \<open>
  What the program reads from its surroundings: the two globals set once in \<^verbatim>\<open>main\<close>
  (\<^verbatim>\<open>firstEphemeralPort\<close>, \<^verbatim>\<open>dockerIP\<close>), the docker client, the resolver, the
  \<^verbatim>\<open>ifconfig\<close> command, \<^verbatim>\<open>net.ListenTCP\<close>, and whether the send on
  \<^verbatim>\<open>closeAllConns\<close> in \<^verbatim>\<open>Stop\<close> is ever received.
\<close>

record env =
  firstEphemeralPort :: int
  dockerIP :: netIP
  InspectContainer :: "string \<Rightarrow> Container option"
  ResolveIPAddr :: "string \<Rightarrow> (netIP \<times> string) option"
  ifconfigAlias :: "ip4 \<Rightarrow> bool"
  ListenTCP :: "srcAddr \<Rightarrow> bool"
  closeAllConnsSent :: "Listener \<Rightarrow> bool"

text \<open>A panic ends the process; an error is returned to the caller.\<close>

datatype panic =
  ResolveTCPAddrFailed
  | OutOfLoopback
  | IfconfigFailed
  | ListenFailed

datatype error =
  NoContainerName
  | PortNotExposed
  | EmptyDNSName
  | ResolveIPAddrFailed

section \<open>Address allocator\<close>

definition SourceStartIP :: ip4 where
  "SourceStartIP = IPv4 127 2 2 1"

text \<open>\<^verbatim>\<open>ipToInt\<close>: the four address bytes as a \<^verbatim>\<open>uint32\<close>, most significant first.\<close>

fun ipToInt :: "ip4 \<Rightarrow> 32 word" where
  "ipToInt (IPv4 a b c d) =
     (push_bit 24 (ucast a)) OR (push_bit 16 (ucast b)) OR (push_bit 8 (ucast c)) OR ucast d"

text \<open>\<^verbatim>\<open>succIP\<close>: \<^verbatim>\<open>ipInt += 1\<close> wraps at 32 bits, \<^verbatim>\<open>byte(x)\<close> keeps the low 8 bits.\<close>

definition succIP :: "ip4 \<Rightarrow> ip4" where
  "succIP ip =
     (let ipInt = ipToInt ip + 1
      in IPv4 (ucast (drop_bit 24 ipInt)) (ucast (drop_bit 16 ipInt))
              (ucast (drop_bit 8 ipInt)) (ucast ipInt))"

text \<open>\<^verbatim>\<open>net.IP.IsLoopback\<close> on an IPv4 address: the first byte is 127.\<close>

fun IsLoopback :: "ip4 \<Rightarrow> bool" where
  "IsLoopback (IPv4 a b c d) = (a = 127)"

text \<open>
  The closure \<^verbatim>\<open>getSourceAddr\<close>: \<^verbatim>\<open>net.ResolveTCPAddr\<close> of \<^verbatim>\<open>"addr:port"\<close> with a
  literal address gives that address and port, and fails (so the closure panics) when
  the port is not a TCP port number.
\<close>

definition getSourceAddr :: "int \<Rightarrow> ip4 \<Rightarrow> panic + srcAddr" where
  "getSourceAddr port addr =
     (if 0 \<le> port \<and> port \<le> 65535
      then Inr \<lparr>IP = addr, Port = port, Zone = []\<rparr>
      else Inl ResolveTCPAddrFailed)"

text \<open>
  The \<^verbatim>\<open>range sourceAddrs\<close> loop of \<^verbatim>\<open>sourceAddrForPort\<close>, over the keys in visiting
  order. \<open>Inl\<close>: the loop left early, having claimed the port on \<open>addr\<close>.
  \<open>Inr\<close>: the loop ran to its end; the value is \<^verbatim>\<open>lastAddr\<close> (\<open>None\<close> for the
  empty string).
\<close>

fun scanAddrs ::
  "int \<Rightarrow> destAddr \<Rightarrow> ip4 list \<Rightarrow> addrTable \<Rightarrow> ip4 option \<Rightarrow> (ip4 \<times> addrTable) + ip4 option"
where
  "scanAddrs port dest [] m lastAddr = Inr lastAddr"
| "scanAddrs port dest (addr # rest) m lastAddr =
     (case m addr of
        None \<Rightarrow> scanAddrs port dest rest m lastAddr
      | Some ls \<Rightarrow>
          (let lastAddr' =
                 (case lastAddr of
                    None \<Rightarrow> Some addr
                  | Some la \<Rightarrow> if ipToInt addr > ipToInt la then Some addr else Some la)
           in if ls port = None
              then Inl (addr, m(addr \<mapsto> ls(port \<mapsto> dest)))
              else scanAddrs port dest rest m lastAddr'))"

definition sourceAddrForPort ::
  "env \<Rightarrow> int \<Rightarrow> destAddr \<Rightarrow> ip4 list \<Rightarrow> addrTable \<Rightarrow> panic + (srcAddr \<times> addrTable)"
where
  "sourceAddrForPort e port dest order m =
     (case scanAddrs port dest order m None of
        Inl (addr, m') \<Rightarrow>
          (case getSourceAddr port addr of
             Inl p \<Rightarrow> Inl p
           | Inr src \<Rightarrow> Inr (src, m'))
      | Inr lastAddr \<Rightarrow>
          (let nextIP = (case lastAddr of None \<Rightarrow> SourceStartIP | Some la \<Rightarrow> succIP la)
           in if \<not> IsLoopback nextIP then Inl OutOfLoopback
              else if \<not> ifconfigAlias e nextIP then Inl IfconfigFailed
              else (case getSourceAddr port nextIP of
                      Inl p \<Rightarrow> Inl p
                    | Inr src \<Rightarrow> Inr (src, m(nextIP \<mapsto> [port \<mapsto> dest])))))"

text \<open>
  The statement \<^verbatim>\<open>delete(sourceAddrs[l.Src.IP.String()], l.Src.Port)\<close> of
  \<^verbatim>\<open>removeContainer\<close>: deleting from the nil map of a missing address does nothing.
\<close>

definition deleteClaim :: "ip4 \<Rightarrow> int \<Rightarrow> addrTable \<Rightarrow> addrTable" where
  "deleteClaim addr port m =
     (case m addr of None \<Rightarrow> m | Some ls \<Rightarrow> m(addr \<mapsto> ls(port := None)))"

text \<open>The order of a \<^verbatim>\<open>range\<close> loop over a map: every key, once.\<close>

definition rangeOrder :: "('k \<rightharpoonup> 'v) \<Rightarrow> 'k list \<Rightarrow> bool" where
  "rangeOrder m order = (distinct order \<and> set order = dom m)"

text \<open>The destination a port is claimed for on an address, if any.\<close>

definition claim :: "addrTable \<Rightarrow> ip4 \<Rightarrow> int \<Rightarrow> destAddr option" where
  "claim m addr port = (case m addr of None \<Rightarrow> None | Some ls \<Rightarrow> ls port)"

section \<open>Hostname derivation\<close>

text \<open>The characters of the class \<^verbatim>\<open>[-a-z0-9.]\<close>.\<close>

definition allowedChar :: "char \<Rightarrow> bool" where
  "allowedChar c =
     (c = CHR ''-'' \<or> (97 \<le> (of_char c :: nat) \<and> (of_char c :: nat) \<le> 122)
      \<or> (48 \<le> (of_char c :: nat) \<and> (of_char c :: nat) \<le> 57) \<or> c = CHR ''.'')"

text \<open>\<^verbatim>\<open>dnsNameAllowedChars.ReplaceAllLiteralString(s, "-")\<close>: every maximal run
  matching \<^verbatim>\<open>[^-a-z0-9.]+\<close> becomes one hyphen.\<close>

function replaceDisallowed :: "string \<Rightarrow> string" where
  "replaceDisallowed [] = []"
| "replaceDisallowed (c # cs) =
     (if allowedChar c then c # replaceDisallowed cs
      else CHR ''-'' # replaceDisallowed (dropWhile (\<lambda>x. \<not> allowedChar x) cs))"
  by pat_completeness auto
termination
  by (relation "measure length") (auto simp: le_imp_less_Suc length_dropWhile_le)

text \<open>\<^verbatim>\<open>strings.Trim(s, "-")\<close>.\<close>

definition trimHyphens :: "string \<Rightarrow> string" where
  "trimHyphens s =
     rev (dropWhile (\<lambda>x. x = CHR ''-'') (rev (dropWhile (\<lambda>x. x = CHR ''-'') s)))"

text \<open>\<^verbatim>\<open>dnsNameHyphenStrings.ReplaceAllLiteralString(s, "-")\<close>: every maximal run
  matching \<^verbatim>\<open>-{2,}\<close> becomes one hyphen; a single hyphen stays.\<close>

function collapseHyphens :: "string \<Rightarrow> string" where
  "collapseHyphens [] = []"
| "collapseHyphens (c # cs) =
     (if c = CHR ''-'' then CHR ''-'' # collapseHyphens (dropWhile (\<lambda>x. x = CHR ''-'') cs)
      else c # collapseHyphens cs)"
  by pat_completeness auto
termination
  by (relation "measure length") (auto simp: le_imp_less_Suc length_dropWhile_le)

definition dnsNameFromContainerName :: "string \<Rightarrow> string" where
  "dnsNameFromContainerName containerName =
     collapseHyphens (trimHyphens (replaceDisallowed containerName))"

section \<open>Listeners\<close>

text \<open>\<^verbatim>\<open>net.IP.IsUnspecified\<close>: equal to \<^verbatim>\<open>0.0.0.0\<close> (as 4 bytes or as the 16-byte
  IPv4-in-IPv6 form) or to \<^verbatim>\<open>::\<close>.\<close>

definition IsUnspecified :: "netIP \<Rightarrow> bool" where
  "IsUnspecified ip =
     (ip = [0, 0, 0, 0]
      \<or> ip = [0, 0, 0, 0, 0, 0, 0, 0, 0, 0, 255, 255, 0, 0, 0, 0]
      \<or> ip = replicate 16 0)"

text \<open>
  \<^verbatim>\<open>ListenerFromContainerAndPort\<close>. The result is a panic, or the returned pair
  \<^verbatim>\<open>(out, err)\<close> (\<open>Inl\<close> for a non-nil \<^verbatim>\<open>err\<close>) with the globals after the call.
  \<open>order\<close> is the visiting order of the \<^verbatim>\<open>range\<close> loop in \<^verbatim>\<open>sourceAddrForPort\<close>.
\<close>

definition ListenerFromContainerAndPort ::
  "env \<Rightarrow> Container \<Rightarrow> APIPort \<Rightarrow> ip4 list \<Rightarrow> state \<Rightarrow> panic + ((error + Listener) \<times> state)"
where
  "ListenerFromContainerAndPort e container port order s =
     (if Name container = [] then Inr (Inl NoContainerName, s)
      else if PublicPort port = 0 \<or> PrivatePort port = 0 then Inr (Inl PortNotExposed, s)
      else
        (let dnsName = dnsNameFromContainerName (Name container)
         in if dnsName = [] then Inr (Inl EmptyDNSName, s)
            else
              (case ResolveIPAddr e (PortIP port) of
                 None \<Rightarrow> Inr (Inl ResolveIPAddrFailed, s)
               | Some (destIP, destZone) \<Rightarrow>
                   (let dest = \<lparr>IP = (if IsUnspecified destIP then dockerIP e else destIP),
                               Port = PublicPort port, Zone = destZone\<rparr>;
                        srcPort = (if Port dest \<ge> firstEphemeralPort e
                                   then PrivatePort port else Port dest)
                    in case sourceAddrForPort e srcPort dest order (sourceAddrs s) of
                         Inl p \<Rightarrow> Inl p
                       | Inr (src, m') \<Rightarrow>
                           Inr (Inr \<lparr>DNSName = dnsName, Src = src, Dest = dest,
                                     tcpListener = False\<rparr>,
                                s\<lparr>sourceAddrs := m'\<rparr>)))))"

text \<open>\<^verbatim>\<open>Listener.Start\<close>: binds the listening socket or panics; the two goroutines it
  launches are outside the sequential state.\<close>

definition Start :: "env \<Rightarrow> Listener \<Rightarrow> panic + Listener" where
  "Start e l = (if ListenTCP e (Src l) then Inr (l\<lparr>tcpListener := True\<rparr>) else Inl ListenFailed)"

text \<open>\<^verbatim>\<open>Listener.Stop\<close>, seen from its caller: it returns at once when nothing was
  started, and otherwise once its send on \<^verbatim>\<open>closeAllConns\<close> has been received.\<close>

definition Stop :: "env \<Rightarrow> Listener \<Rightarrow> bool" where
  "Stop e l = (if tcpListener l then closeAllConnsSent e l else True)"

section \<open>Registry\<close>

text \<open>\<^verbatim>\<open>fmt.Sprintf("%d", n)\<close>.\<close>

function showNat :: "nat \<Rightarrow> string" where
  "showNat n =
     (if n < 10 then [''0123456789'' ! n]
      else showNat (n div 10) @ [''0123456789'' ! (n mod 10)])"
  by pat_completeness auto
termination
  by (relation "measure id") auto

declare showNat.simps [simp del]

definition showInt :: "int \<Rightarrow> string" where
  "showInt i = (if i < 0 then CHR ''-'' # showNat (nat (- i)) else showNat (nat i))"

definition containerPortKey :: "Container \<Rightarrow> APIPort \<Rightarrow> string" where
  "containerPortKey c p = ID c @ '':'' @ showInt (PrivatePort p)"

text \<open>
  The loop of \<^verbatim>\<open>addContainer\<close> over the port mappings. \<open>orders\<close> holds the visiting
  orders of the \<^verbatim>\<open>range\<close> loops of the calls of \<^verbatim>\<open>sourceAddrForPort\<close>, one for each
  call of \<^verbatim>\<open>ListenerFromContainerAndPort\<close>.
\<close>

fun addLoop ::
  "env \<Rightarrow> Container \<Rightarrow> APIPort list \<Rightarrow> ip4 list list \<Rightarrow> state \<Rightarrow> Listener list
     \<Rightarrow> panic + (Listener list \<times> state)"
where
  "addLoop e c [] orders s out = Inr (out, s)"
| "addLoop e c (port # ports) orders s out =
     (let key = containerPortKey c port
      in if containerListeners s key \<noteq> None then addLoop e c ports orders s out
         else
           (case ListenerFromContainerAndPort e c port (case orders of [] \<Rightarrow> [] | ord # _ \<Rightarrow> ord) s of
              Inl p \<Rightarrow> Inl p
            | Inr (Inl err, s') \<Rightarrow> addLoop e c ports (tl orders) s' out
            | Inr (Inr l, s') \<Rightarrow>
                (case Start e l of
                   Inl p \<Rightarrow> Inl p
                 | Inr l' \<Rightarrow>
                     addLoop e c ports (tl orders)
                       (s'\<lparr>containerListeners := (containerListeners s')(key \<mapsto> l'),
                           dnsZone := (dnsZone s')(DNSName l' \<mapsto> IP (Src l'))\<rparr>)
                       (out @ [l']))))"

definition addContainer ::
  "env \<Rightarrow> string \<Rightarrow> ip4 list list \<Rightarrow> state \<Rightarrow> panic + (Listener list \<times> state)"
where
  "addContainer e cid orders s =
     (case InspectContainer e cid of
        None \<Rightarrow> Inr ([], s)
      | Some c \<Rightarrow> addLoop e c (Ports c) orders s [])"

text \<open>
  The loop of \<^verbatim>\<open>removeContainer\<close> over the keys of \<^verbatim>\<open>containerListeners\<close> in visiting
  order; an entry deleted earlier in the loop is not visited. The result says whether
  the loop ran to its end (it does not when a \<^verbatim>\<open>Stop\<close> never returns), the globals it
  left, and each call of \<^verbatim>\<open>Stop\<close> in order: the loop variables \<^verbatim>\<open>cp\<close> and \<^verbatim>\<open>l\<close> and
  the globals at the moment of the call.
\<close>

fun removeLoop ::
  "env \<Rightarrow> string \<Rightarrow> string list \<Rightarrow> state \<Rightarrow> (string \<times> Listener \<times> state) list
     \<Rightarrow> bool \<times> state \<times> (string \<times> Listener \<times> state) list"
where
  "removeLoop e cid [] s stops = (True, s, stops)"
| "removeLoop e cid (cp # rest) s stops =
     (case containerListeners s cp of
        None \<Rightarrow> removeLoop e cid rest s stops
      | Some l \<Rightarrow>
          if prefix (cid @ '':'') cp
          then
            (let s1 = s\<lparr>containerListeners := (containerListeners s)(cp := None)\<rparr>;
                 s2 = s1\<lparr>dnsZone := (dnsZone s1)(DNSName l := None)\<rparr>;
                 s3 = s2\<lparr>sourceAddrs := deleteClaim (IP (Src l)) (Port (Src l)) (sourceAddrs s2)\<rparr>
             in if Stop e l then removeLoop e cid rest s3 (stops @ [(cp, l, s3)])
                else (False, s3, stops @ [(cp, l, s3)]))
          else removeLoop e cid rest s stops)"

definition removeContainer ::
  "env \<Rightarrow> string \<Rightarrow> string list \<Rightarrow> state
     \<Rightarrow> bool \<times> state \<times> (string \<times> Listener \<times> state) list"
where
  "removeContainer e cid order s = removeLoop e cid order s []"

text \<open>The globals after the three \<^verbatim>\<open>delete\<close> statements of one iteration of
  \<^verbatim>\<open>removeContainer\<close>.\<close>

definition afterDelete :: "state \<Rightarrow> string \<Rightarrow> Listener \<Rightarrow> state" where
  "afterDelete s cp l =
     s\<lparr>containerListeners := (containerListeners s)(cp := None),
       dnsZone := (dnsZone s)(DNSName l := None),
       sourceAddrs := deleteClaim (IP (Src l)) (Port (Src l)) (sourceAddrs s)\<rparr>"

text \<open>The globals as \<^verbatim>\<open>main\<close> creates them.\<close>

definition initState :: state where
  "initState = \<lparr>sourceAddrs = Map.empty, dnsZone = Map.empty, containerListeners = Map.empty\<rparr>"

section \<open>Reachable allocator states\<close>

text \<open>
  The allocator table together with the live claims: the source addresses that calls of
  \<^verbatim>\<open>sourceAddrForPort\<close> have returned and that have not been released since. The
  table starts empty (\<^verbatim>\<open>main\<close>); a port of an address is released by the \<^verbatim>\<open>delete\<close>
  statement of \<^verbatim>\<open>removeContainer\<close>, after which the pair is no longer live.
\<close>

inductive allocReach :: "addrTable \<Rightarrow> srcAddr list \<Rightarrow> bool" where
  start: "allocReach Map.empty []"
| allocate:
    "allocReach m live \<Longrightarrow> rangeOrder m order \<Longrightarrow>
     sourceAddrForPort e port dest order m = Inr (src, m') \<Longrightarrow>
     allocReach m' (src # live)"
| release:
    "allocReach m live \<Longrightarrow>
     allocReach (deleteClaim addr port m) (filter (\<lambda>s. (IP s, Port s) \<noteq> (addr, port)) live)"

section \<open>Hostname derivation in the words of the specification\<close>

text \<open>
  The derivation as the specification words it: strip every character outside
  \<^verbatim>\<open>[a-z0-9.-]\<close>, collapse consecutive hyphens into one, trim leading and trailing
  hyphens.
\<close>

definition specHostname :: "string \<Rightarrow> string" where
  "specHostname name = trimHyphens (collapseHyphens (filter allowedChar name))"

text \<open>
  The same with one change: a character outside the class is replaced by a hyphen
  instead of being stripped.
\<close>

definition amendedHostname :: "string \<Rightarrow> string" where
  "amendedHostname name =
     trimHyphens (collapseHyphens (map (\<lambda>c. if allowedChar c then c else CHR ''-'') name))"

abbreviation (input) isHyphen :: "char \<Rightarrow> bool" where
  "isHyphen \<equiv> (\<lambda>x. x = CHR ''-'')"

section \<open>Example data\<close>

text \<open>A docker host at 192.168.99.100 on which every system call succeeds.\<close>

definition exEnv :: env where
  "exEnv =
     \<lparr>firstEphemeralPort = 49152,
      dockerIP = [192, 168, 99, 100],
      InspectContainer = (\<lambda>cid. None),
      ResolveIPAddr = (\<lambda>host. Some ([0, 0, 0, 0], [])),
      ifconfigAlias = (\<lambda>addr. True),
      ListenTCP = (\<lambda>src. True),
      closeAllConnsSent = (\<lambda>l. True)\<rparr>"

definition exDest :: destAddr where
  "exDest = \<lparr>IP = [192, 168, 99, 100], Port = 51234, Zone = []\<rparr>"

text \<open>The first two allocations of port 80.\<close>

definition exSrc1 :: srcAddr where
  "exSrc1 = \<lparr>IP = IPv4 127 2 2 1, Port = 80, Zone = []\<rparr>"

definition exSrc2 :: srcAddr where
  "exSrc2 = \<lparr>IP = IPv4 127 2 2 2, Port = 80, Zone = []\<rparr>"

definition exTable1 :: addrTable where
  "exTable1 = [IPv4 127 2 2 1 \<mapsto> [80 \<mapsto> exDest]]"

definition exTable2 :: addrTable where
  "exTable2 = exTable1(IPv4 127 2 2 2 \<mapsto> [80 \<mapsto> exDest])"

text \<open>A container with a port published on an ephemeral port, and the same private port
  published on a port below the threshold.\<close>

definition exPortEphemeral :: APIPort where
  "exPortEphemeral = \<lparr>PrivatePort = 8080, PublicPort = 51234, PortType = ''tcp'', PortIP = ''0.0.0.0''\<rparr>"

definition exPortPublished :: APIPort where
  "exPortPublished = \<lparr>PrivatePort = 8080, PublicPort = 32768, PortType = ''tcp'', PortIP = ''0.0.0.0''\<rparr>"

definition exWeb :: Container where
  "exWeb = \<lparr>ID = ''aa'', Name = ''/web_1'', Ports = [exPortEphemeral]\<rparr>"

definition exListenerEphemeral :: Listener where
  "exListenerEphemeral =
     \<lparr>DNSName = ''web-1'', Src = \<lparr>IP = IPv4 127 2 2 1, Port = 8080, Zone = []\<rparr>,
      Dest = \<lparr>IP = [192, 168, 99, 100], Port = 51234, Zone = []\<rparr>, tcpListener = False\<rparr>"

definition exListenerPublished :: Listener where
  "exListenerPublished =
     \<lparr>DNSName = ''web-1'', Src = \<lparr>IP = IPv4 127 2 2 1, Port = 32768, Zone = []\<rparr>,
      Dest = \<lparr>IP = [192, 168, 99, 100], Port = 32768, Zone = []\<rparr>, tcpListener = False\<rparr>"

text \<open>The table after two allocations of port 80 and the release of the first.\<close>

definition exTableReleased :: addrTable where
  "exTableReleased = deleteClaim (IPv4 127 2 2 1) 80 exTable2"

text \<open>Containers and a port mapping on which the construction of a listener fails.\<close>

definition exNameless :: Container where
  "exNameless = \<lparr>ID = ''cc'', Name = [], Ports = [exPortEphemeral]\<rparr>"

definition exHashes :: Container where
  "exHashes = \<lparr>ID = ''dd'', Name = ''####'', Ports = [exPortEphemeral]\<rparr>"

definition exPortUnexposed :: APIPort where
  "exPortUnexposed = \<lparr>PrivatePort = 8080, PublicPort = 0, PortType = ''tcp'', PortIP = []\<rparr>"

definition exState1 :: state where
  "exState1 = initState\<lparr>sourceAddrs := exTable1\<rparr>"

text \<open>Two containers whose names give the same hostname, and the globals after the
  first and after both have been added.\<close>

definition exWebTwin :: Container where
  "exWebTwin = \<lparr>ID = ''bb'', Name = ''/web-1'', Ports = [exPortEphemeral]\<rparr>"

definition exEnvWeb :: env where
  "exEnvWeb = exEnv\<lparr>InspectContainer :=
     (\<lambda>cid. if cid = ''aa'' then Some exWeb else if cid = ''bb'' then Some exWebTwin else None)\<rparr>"

definition exListenerA :: Listener where
  "exListenerA =
     \<lparr>DNSName = ''web-1'', Src = \<lparr>IP = IPv4 127 2 2 1, Port = 8080, Zone = []\<rparr>,
      Dest = exDest, tcpListener = True\<rparr>"

definition exListenerB :: Listener where
  "exListenerB =
     \<lparr>DNSName = ''web-1'', Src = \<lparr>IP = IPv4 127 2 2 2, Port = 8080, Zone = []\<rparr>,
      Dest = exDest, tcpListener = True\<rparr>"

definition exStateA :: state where
  "exStateA =
     \<lparr>sourceAddrs = [IPv4 127 2 2 1 \<mapsto> [8080 \<mapsto> exDest]],
      dnsZone = [''web-1'' \<mapsto> IPv4 127 2 2 1],
      containerListeners = [''aa:8080'' \<mapsto> exListenerA]\<rparr>"

definition exStateAB :: state where
  "exStateAB =
     \<lparr>sourceAddrs = [IPv4 127 2 2 1 \<mapsto> [8080 \<mapsto> exDest], IPv4 127 2 2 2 \<mapsto> [8080 \<mapsto> exDest]],
      dnsZone = [''web-1'' \<mapsto> IPv4 127 2 2 2],
      containerListeners = [''aa:8080'' \<mapsto> exListenerA, ''bb:8080'' \<mapsto> exListenerB]\<rparr>"

text \<open>A container with two published ports, on a host where the send on
  \<^verbatim>\<open>closeAllConns\<close> in \<^verbatim>\<open>Stop\<close> is never received, and the globals after it has been added.\<close>

definition exPortSecond :: APIPort where
  "exPortSecond = \<lparr>PrivatePort = 9090, PublicPort = 51235, PortType = ''tcp'', PortIP = ''0.0.0.0''\<rparr>"

definition exWebTwo :: Container where
  "exWebTwo = \<lparr>ID = ''aa'', Name = ''/web_1'', Ports = [exPortEphemeral, exPortSecond]\<rparr>"

definition exEnvBlocked :: env where
  "exEnvBlocked = exEnv\<lparr>InspectContainer := (\<lambda>cid. if cid = ''aa'' then Some exWebTwo else None),
                        closeAllConnsSent := (\<lambda>l. False)\<rparr>"

definition exDestSecond :: destAddr where
  "exDestSecond = \<lparr>IP = [192, 168, 99, 100], Port = 51235, Zone = []\<rparr>"

definition exListenerC :: Listener where
  "exListenerC =
     \<lparr>DNSName = ''web-1'', Src = \<lparr>IP = IPv4 127 2 2 1, Port = 9090, Zone = []\<rparr>,
      Dest = exDestSecond, tcpListener = True\<rparr>"

definition exStateTwo :: state where
  "exStateTwo =
     \<lparr>sourceAddrs = [IPv4 127 2 2 1 \<mapsto> [8080 \<mapsto> exDest, 9090 \<mapsto> exDestSecond]],
      dnsZone = [''web-1'' \<mapsto> IPv4 127 2 2 1],
      containerListeners = [''aa:8080'' \<mapsto> exListenerA, ''aa:9090'' \<mapsto> exListenerC]\<rparr>"

section \<open>Properties of the allocator\<close>

lemma ipToInt_bytes:
  "ipToInt (IPv4 (ucast (drop_bit 24 w)) (ucast (drop_bit 16 w)) (ucast (drop_bit 8 w)) (ucast w)) = (w :: 32 word)"
proof (rule bit_word_eqI)
  fix n assume n: "n < LENGTH(32)"
  then have "n < 8 \<or> (8 \<le> n \<and> n < 16) \<or> (16 \<le> n \<and> n < 24) \<or> (24 \<le> n \<and> n < 32)"
    by auto
  then show "bit (ipToInt (IPv4 (ucast (drop_bit 24 w)) (ucast (drop_bit 16 w)) (ucast (drop_bit 8 w)) (ucast w))) n = bit w n"
    using n by (auto simp: bit_simps)
qed

lemma ipToInt_succIP: "ipToInt (succIP ip) = ipToInt ip + 1"
  unfolding succIP_def Let_def by (rule ipToInt_bytes)

lemma bytes_ipToInt:
  "IPv4 (ucast (drop_bit 24 (ipToInt ip))) (ucast (drop_bit 16 (ipToInt ip)))
        (ucast (drop_bit 8 (ipToInt ip))) (ucast (ipToInt ip)) = ip"
proof (cases ip)
  case (IPv4 a b c d)
  have "ucast (drop_bit 24 (ipToInt (IPv4 a b c d))) = a"
    by (rule bit_word_eqI) (auto simp: bit_simps dest: bit_imp_le_length)
  moreover have "ucast (drop_bit 16 (ipToInt (IPv4 a b c d))) = b"
    by (rule bit_word_eqI) (auto simp: bit_simps dest: bit_imp_le_length)
  moreover have "ucast (drop_bit 8 (ipToInt (IPv4 a b c d))) = c"
    by (rule bit_word_eqI) (auto simp: bit_simps dest: bit_imp_le_length)
  moreover have "ucast (ipToInt (IPv4 a b c d)) = d"
    by (rule bit_word_eqI) (auto simp: bit_simps dest: bit_imp_le_length)
  ultimately show ?thesis using IPv4 by simp
qed

lemma ipToInt_inj: "ipToInt a = ipToInt b \<Longrightarrow> a = b"
  by (metis bytes_ipToInt)

lemma succIP_loopback_less:
  assumes "IsLoopback (succIP ip)"
  shows "ipToInt ip < ipToInt (succIP ip)"
proof -
  have "ipToInt ip + 1 \<noteq> 0"
  proof
    assume z: "ipToInt ip + 1 = 0"
    have "succIP ip = IPv4 0 0 0 0"
      unfolding succIP_def Let_def z by simp
    with assms show False by simp
  qed
  then have "ipToInt ip \<noteq> - 1" by auto
  then have "\<not> ipToInt ip + 1 \<le> ipToInt ip"
    by (simp add: inc_less_eq_self_iff_eq)
  then show ?thesis
    by (simp add: ipToInt_succIP)
qed

lemma scanAddrs_Inl:
  "scanAddrs port dest order m lastAddr = Inl (addr, m') \<Longrightarrow>
   addr \<in> set order \<and> (\<exists>ls. m addr = Some ls \<and> ls port = None \<and> m' = m(addr \<mapsto> ls(port \<mapsto> dest)))"
  by (induction order arbitrary: lastAddr) (auto simp: Let_def split: option.splits if_splits)

lemma scanAddrs_Inr_full:
  "scanAddrs port dest order m lastAddr = Inr la \<Longrightarrow>
   (\<forall>a\<in>set order. \<forall>ls. m a = Some ls \<longrightarrow> ls port \<noteq> None)"
  by (induction order arbitrary: lastAddr) (auto simp: Let_def split: option.splits if_splits)

lemma scanAddrs_Inr_None:
  "scanAddrs port dest order m lastAddr = Inr None \<Longrightarrow>
   lastAddr = None \<and> (\<forall>a\<in>set order. m a = None)"
  by (induction order arbitrary: lastAddr) (auto simp: Let_def split: option.splits if_splits)

lemma scanAddrs_Inr_Some:
  "scanAddrs port dest order m lastAddr = Inr (Some hi) \<Longrightarrow>
   (lastAddr = Some hi \<or> (hi \<in> set order \<and> m hi \<noteq> None)) \<and>
   (\<forall>a\<in>set order. m a \<noteq> None \<longrightarrow> ipToInt a \<le> ipToInt hi) \<and>
   (\<forall>l. lastAddr = Some l \<longrightarrow> ipToInt l \<le> ipToInt hi)"
proof (induction order arbitrary: lastAddr)
  case Nil
  then show ?case by simp
next
  case (Cons addr rest)
  show ?case
  proof (cases "m addr")
    case None
    with Cons.prems have "scanAddrs port dest rest m lastAddr = Inr (Some hi)" by simp
    from Cons.IH [OF this] None show ?thesis by auto
  next
    case (Some ls)
    let ?last = "case lastAddr of None \<Rightarrow> Some addr
                 | Some la \<Rightarrow> if ipToInt addr > ipToInt la then Some addr else Some la"
    from Cons.prems Some have rec: "scanAddrs port dest rest m ?last = Inr (Some hi)"
      by (simp add: Let_def split: if_splits)
    note ih = Cons.IH [OF rec]
    show ?thesis
    proof (cases lastAddr)
      case None
      with ih Some show ?thesis by auto
    next
      case (Some la)
      with ih \<open>m addr = Some ls\<close> show ?thesis
        by (auto split: if_splits)
    qed
  qed
qed

lemma scanAddrs_finds:
  "a \<in> set order \<Longrightarrow> m a = Some ls \<Longrightarrow> ls port = None \<Longrightarrow>
   \<exists>addr m'. scanAddrs port dest order m lastAddr = Inl (addr, m')"
  by (induction order arbitrary: lastAddr) (auto simp: Let_def split: option.splits)

lemma sourceAddrForPort_Inr:
  assumes ok: "sourceAddrForPort e port dest order m = Inr (src, m')"
    and ord: "rangeOrder m order"
  shows "Port src = port \<and> claim m (IP src) port = None \<and>
    ((\<exists>ls. m (IP src) = Some ls \<and> m' = m(IP src \<mapsto> ls(port \<mapsto> dest))) \<or>
     (m (IP src) = None \<and> m' = m(IP src \<mapsto> [port \<mapsto> dest]) \<and>
      (\<forall>a\<in>dom m. claim m a port \<noteq> None) \<and>
      (dom m = {} \<longrightarrow> IP src = SourceStartIP) \<and>
      (dom m \<noteq> {} \<longrightarrow>
         (\<exists>hi\<in>dom m. (\<forall>a\<in>dom m. ipToInt a \<le> ipToInt hi) \<and>
                      ipToInt (IP src) = ipToInt hi + 1 \<and> ipToInt hi < ipToInt (IP src)))))"
proof (cases "scanAddrs port dest order m None")
  case (Inl r)
  obtain addr m1 where r: "r = (addr, m1)" by (cases r)
  from scanAddrs_Inl [OF Inl [unfolded r]]
  obtain ls where ls: "m addr = Some ls" "ls port = None" "m1 = m(addr \<mapsto> ls(port \<mapsto> dest))"
    by auto
  from ok Inl r have "src = \<lparr>IP = addr, Port = port, Zone = []\<rparr>" "m' = m1"
    by (auto simp: sourceAddrForPort_def getSourceAddr_def split: if_splits)
  with ls show ?thesis by (simp add: claim_def)
next
  case (Inr la)
  let ?next = "case la of None \<Rightarrow> SourceStartIP | Some x \<Rightarrow> succIP x"
  from ok Inr have loop: "IsLoopback ?next"
    and src: "src = \<lparr>IP = ?next, Port = port, Zone = []\<rparr>"
    and m': "m' = m(?next \<mapsto> [port \<mapsto> dest])"
    by (auto simp: sourceAddrForPort_def getSourceAddr_def Let_def split: if_splits)
  from ord have dom: "set order = dom m" by (simp add: rangeOrder_def)
  from scanAddrs_Inr_full [OF Inr] dom
  have full: "\<forall>a\<in>dom m. claim m a port \<noteq> None"
    by (fastforce simp: claim_def)
  show ?thesis
  proof (cases la)
    case None
    with scanAddrs_Inr_None [of port dest order m None] Inr dom
    have "dom m = {}" by auto
    with src m' None full show ?thesis by (auto simp: claim_def)
  next
    case (Some hi)
    from scanAddrs_Inr_Some [of port dest order m None hi] Inr Some dom
    have hi: "hi \<in> dom m" and mx: "\<forall>a\<in>dom m. ipToInt a \<le> ipToInt hi"
      by auto
    from loop Some have lt: "ipToInt hi < ipToInt (succIP hi)"
      by (simp add: succIP_loopback_less)
    have fresh: "m (succIP hi) = None"
    proof (rule ccontr)
      assume "m (succIP hi) \<noteq> None"
      then have "succIP hi \<in> dom m" by auto
      with mx have "ipToInt (succIP hi) \<le> ipToInt hi" by blast
      with lt show False by simp
    qed
    from hi have ne: "dom m \<noteq> {}" by auto
    have "ipToInt (succIP hi) = ipToInt hi + 1" by (rule ipToInt_succIP)
    with src m' Some full hi mx lt fresh ne show ?thesis
      by (auto simp: claim_def)
  qed
qed

lemma claim_upd:
  "claim (m(a \<mapsto> ls)) a' p = (if a' = a then ls p else claim m a' p)"
  by (simp add: claim_def)

lemma sourceAddrForPort_claims:
  assumes ok: "sourceAddrForPort e port dest order m = Inr (src, m')"
    and ord: "rangeOrder m order"
  shows "Port src = port \<and> claim m (IP src) (Port src) = None \<and>
     claim m' (IP src) (Port src) = Some dest \<and>
     (\<forall>a p. (a, p) \<noteq> (IP src, Port src) \<longrightarrow> claim m' a p = claim m a p)"
  using sourceAddrForPort_Inr [OF ok ord]
  by (auto simp: claim_upd) (auto simp: claim_def)

lemma claim_deleteClaim:
  "claim (deleteClaim a p m) a' p' = (if a' = a \<and> p' = p then None else claim m a' p')"
  by (auto simp: claim_def deleteClaim_def split: option.splits)

lemma dom_deleteClaim: "dom (deleteClaim a p m) = dom m"
  by (auto simp: deleteClaim_def split: option.splits)

lemma sourceAddrForPort_Port:
  "sourceAddrForPort e port dest order m = Inr (src, m') \<Longrightarrow> Port src = port"
  by (auto simp: sourceAddrForPort_def getSourceAddr_def Let_def
           split: sum.splits if_splits prod.splits)

section \<open>Properties of listeners and of the registry\<close>

lemma sourceAddrForPort_dom_mono:
  "sourceAddrForPort e port dest order m = Inr (src, m') \<Longrightarrow> dom m \<subseteq> dom m'"
  by (auto simp: sourceAddrForPort_def Let_def split: sum.splits if_splits dest!: scanAddrs_Inl)

lemma LFCAP_error:
  assumes "ListenerFromContainerAndPort e c p order s = Inr (Inl err, s')"
  shows "s' = s \<and> (\<forall>order2 s2. ListenerFromContainerAndPort e c p order2 s2 = Inr (Inl err, s2))"
  using assms
  by (auto simp: ListenerFromContainerAndPort_def Let_def
           split: if_splits option.splits sum.splits prod.splits)

lemma LFCAP_ok:
  assumes "ListenerFromContainerAndPort e c p order s = Inr (Inr l, s')"
  shows "DNSName l = dnsNameFromContainerName (Name c) \<and>
         Port (Dest l) = PublicPort p \<and>
         tcpListener l = False \<and>
         s' = s\<lparr>sourceAddrs := sourceAddrs s'\<rparr> \<and>
         sourceAddrForPort e
           (if PublicPort p \<ge> firstEphemeralPort e then PrivatePort p else PublicPort p)
           (Dest l) order (sourceAddrs s) = Inr (Src l, sourceAddrs s')"
  using assms
  by (auto simp: ListenerFromContainerAndPort_def Let_def
           split: if_splits option.splits sum.splits prod.splits)

lemma LFCAP_frame:
  assumes "ListenerFromContainerAndPort e c p order s = Inr (r, s')"
  shows "dnsZone s' = dnsZone s \<and> containerListeners s' = containerListeners s \<and>
         dom (sourceAddrs s) \<subseteq> dom (sourceAddrs s')"
proof (cases r)
  case (Inl err)
  with LFCAP_error [of e c p order s err s'] assms show ?thesis by simp
next
  case (Inr l)
  with assms have ok: "ListenerFromContainerAndPort e c p order s = Inr (Inr l, s')" by simp
  from LFCAP_ok [OF ok] have eq: "s' = s\<lparr>sourceAddrs := sourceAddrs s'\<rparr>"
    and al: "sourceAddrForPort e
           (if PublicPort p \<ge> firstEphemeralPort e then PrivatePort p else PublicPort p)
           (Dest l) order (sourceAddrs s) = Inr (Src l, sourceAddrs s')"
    by blast+
  from eq have "dnsZone s' = dnsZone s" "containerListeners s' = containerListeners s"
    by (metis state.select_convs state.surjective state.update_convs(1))+
  with sourceAddrForPort_dom_mono [OF al] show ?thesis by simp
qed


subsection \<open>The loop of addContainer, step by step\<close>

lemma addLoop_skip:
  "containerListeners s (containerPortKey c port) \<noteq> None \<Longrightarrow>
   addLoop e c (port # ports) orders s out = addLoop e c ports orders s out"
  by (simp add: Let_def)

lemma addLoop_error:
  "containerListeners s (containerPortKey c port) = None \<Longrightarrow>
   ListenerFromContainerAndPort e c port (case orders of [] \<Rightarrow> [] | ord # _ \<Rightarrow> ord) s
     = Inr (Inl err, s') \<Longrightarrow>
   addLoop e c (port # ports) orders s out = addLoop e c ports (tl orders) s' out"
  by (simp add: Let_def)

lemma addLoop_started:
  "containerListeners s (containerPortKey c port) = None \<Longrightarrow>
   ListenerFromContainerAndPort e c port (case orders of [] \<Rightarrow> [] | ord # _ \<Rightarrow> ord) s
     = Inr (Inr l, s') \<Longrightarrow>
   Start e l = Inr l' \<Longrightarrow>
   addLoop e c (port # ports) orders s out =
     addLoop e c ports (tl orders)
       (s'\<lparr>containerListeners := (containerListeners s')(containerPortKey c port \<mapsto> l'),
           dnsZone := (dnsZone s')(DNSName l' \<mapsto> IP (Src l'))\<rparr>)
       (out @ [l'])"
  by (simp add: Let_def)

lemma addLoop_cases:
  assumes "addLoop e c (port # ports) orders s out = Inr (out', s')"
  obtains
    (skip) "containerListeners s (containerPortKey c port) \<noteq> None"
      "addLoop e c ports orders s out = Inr (out', s')"
  | (error) err where "containerListeners s (containerPortKey c port) = None"
      "ListenerFromContainerAndPort e c port (case orders of [] \<Rightarrow> [] | ord # _ \<Rightarrow> ord) s
         = Inr (Inl err, s)"
      "addLoop e c ports (tl orders) s out = Inr (out', s')"
  | (started) l s1 where "containerListeners s (containerPortKey c port) = None"
      "ListenerFromContainerAndPort e c port (case orders of [] \<Rightarrow> [] | ord # _ \<Rightarrow> ord) s
         = Inr (Inr l, s1)"
      "ListenTCP e (Src l)"
      "addLoop e c ports (tl orders)
         (s1\<lparr>containerListeners := (containerListeners s1)(containerPortKey c port \<mapsto> l\<lparr>tcpListener := True\<rparr>),
             dnsZone := (dnsZone s1)(DNSName l \<mapsto> IP (Src l))\<rparr>)
         (out @ [l\<lparr>tcpListener := True\<rparr>]) = Inr (out', s')"
proof (cases "containerListeners s (containerPortKey c port)")
  case (Some a)
  with assms skip show ?thesis by (simp add: Let_def)
next
  case None
  let ?r = "ListenerFromContainerAndPort e c port (case orders of [] \<Rightarrow> [] | ord # _ \<Rightarrow> ord) s"
  show ?thesis
  proof (cases ?r)
    case (Inl p)
    with assms None show ?thesis by (simp add: Let_def)
  next
    case (Inr rs)
    obtain r s1 where rs: "rs = (r, s1)" by (cases rs)
    show ?thesis
    proof (cases r)
      case (Inl err)
      with Inr rs have lf: "?r = Inr (Inl err, s1)" by simp
      from LFCAP_error [OF lf] have "s1 = s" by simp
      with assms None lf error show ?thesis by (simp add: Let_def)
    next
      case (Inr l)
      with assms None \<open>?r = Inr rs\<close> rs started show ?thesis
        by (simp add: Let_def Start_def split: if_splits)
    qed
  qed
qed

lemma addLoop_sourceAddrs_mono:
  "addLoop e c ports orders s out = Inr (out', s') \<Longrightarrow>
   dom (sourceAddrs s) \<subseteq> dom (sourceAddrs s')"
proof (induction ports arbitrary: orders s out)
  case Nil
  then show ?case by simp
next
  case (Cons port ports)
  from Cons.prems show ?case
  proof (cases rule: addLoop_cases)
    case skip
    from Cons.IH [OF skip(2)] show ?thesis .
  next
    case (error err)
    from Cons.IH [OF error(3)] show ?thesis .
  next
    case (started l s1)
    from LFCAP_frame [OF started(2)]
    have "dom (sourceAddrs s) \<subseteq> dom (sourceAddrs s1)" by blast
    moreover from Cons.IH [OF started(4)]
    have "dom (sourceAddrs s1) \<subseteq> dom (sourceAddrs s')" by simp
    ultimately show ?thesis by (rule subset_trans)
  qed
qed

lemma addLoop_registered:
  "addLoop e c ports orders s out = Inr (out', s') \<Longrightarrow>
   dom (containerListeners s) \<subseteq> dom (containerListeners s') \<and>
   (\<forall>p\<in>set ports.
      containerPortKey c p \<in> dom (containerListeners s') \<or>
      (\<exists>err. \<forall>order2 s2. ListenerFromContainerAndPort e c p order2 s2 = Inr (Inl err, s2)))"
proof (induction ports arbitrary: orders s out)
  case Nil
  then show ?case by simp
next
  case (Cons port ports)
  from Cons.prems show ?case
  proof (cases rule: addLoop_cases)
    case skip
    from Cons.IH [OF skip(2)] skip(1) show ?thesis by auto
  next
    case (error err)
    from LFCAP_error [OF error(2)] Cons.IH [OF error(3)] show ?thesis by auto
  next
    case (started l s1)
    let ?k = "containerPortKey c port"
    from LFCAP_frame [OF started(2)]
    have cl: "containerListeners s1 = containerListeners s" by blast
    let ?S = "s1\<lparr>containerListeners := (containerListeners s1)(?k \<mapsto> l\<lparr>tcpListener := True\<rparr>),
                 dnsZone := (dnsZone s1)(DNSName l \<mapsto> IP (Src l))\<rparr>"
    have S: "dom (containerListeners ?S) = insert ?k (dom (containerListeners s))"
      by (simp add: cl)
    from Cons.IH [OF started(4)]
    have sub: "dom (containerListeners ?S) \<subseteq> dom (containerListeners s')"
      and rest: "\<forall>p\<in>set ports.
        containerPortKey c p \<in> dom (containerListeners s') \<or>
        (\<exists>err. \<forall>order2 s2. ListenerFromContainerAndPort e c p order2 s2 = Inr (Inl err, s2))"
      by blast+
    from sub have "?k \<in> dom (containerListeners s')"
      and "dom (containerListeners s) \<subseteq> dom (containerListeners s')"
      unfolding S by blast+
    with rest show ?thesis by simp
  qed
qed

lemma addLoop_noop:
  "(\<forall>p\<in>set ports.
      containerPortKey c p \<in> dom (containerListeners s) \<or>
      (\<exists>err. \<forall>order2 s2. ListenerFromContainerAndPort e c p order2 s2 = Inr (Inl err, s2))) \<Longrightarrow>
   addLoop e c ports orders s out = Inr (out, s)"
proof (induction ports arbitrary: orders)
  case Nil
  then show ?case by simp
next
  case (Cons port ports)
  then have ih: "\<And>orders. addLoop e c ports orders s out = Inr (out, s)" by simp
  show ?case
  proof (cases "containerListeners s (containerPortKey c port)")
    case (Some l)
    with ih show ?thesis by (simp add: Let_def)
  next
    case None
    with Cons.prems obtain err where
      "\<forall>order2 s2. ListenerFromContainerAndPort e c port order2 s2 = Inr (Inl err, s2)"
      by auto
    with None ih show ?thesis by (simp add: Let_def)
  qed
qed



subsection \<open>The loop of removeContainer, step by step\<close>

lemma removeLoop_absent:
  "containerListeners s cp = None \<Longrightarrow>
   removeLoop e cid (cp # rest) s stops = removeLoop e cid rest s stops"
  by simp

lemma removeLoop_other:
  "\<not> prefix (cid @ '':'') cp \<Longrightarrow>
   removeLoop e cid (cp # rest) s stops = removeLoop e cid rest s stops"
  by (simp split: option.splits)

lemma removeLoop_hit:
  "containerListeners s cp = Some l \<Longrightarrow> prefix (cid @ '':'') cp \<Longrightarrow>
   removeLoop e cid (cp # rest) s stops =
     (if Stop e l then removeLoop e cid rest (afterDelete s cp l) (stops @ [(cp, l, afterDelete s cp l)])
      else (False, afterDelete s cp l, stops @ [(cp, l, afterDelete s cp l)]))"
  by (simp add: Let_def afterDelete_def)

lemmas removeLoop_step = removeLoop_absent removeLoop_other removeLoop_hit

lemma afterDelete_simps:
  "containerListeners (afterDelete s cp l) k = (if k = cp then None else containerListeners s k)"
  "dnsZone (afterDelete s cp l) n = (if n = DNSName l then None else dnsZone s n)"
  "claim (sourceAddrs (afterDelete s cp l)) a p =
     (if a = IP (Src l) \<and> p = Port (Src l) then None else claim (sourceAddrs s) a p)"
  "dom (sourceAddrs (afterDelete s cp l)) = dom (sourceAddrs s)"
  by (simp_all add: afterDelete_def claim_deleteClaim dom_deleteClaim)

lemma removeLoop_induct [consumes 0, case_names Nil absent other hit]:
  assumes "\<And>s stops. P [] s stops"
    and "\<And>cp rest s stops.
           containerListeners s cp = None \<Longrightarrow> P rest s stops \<Longrightarrow> P (cp # rest) s stops"
    and "\<And>cp rest s stops.
           \<not> prefix (cid @ '':'') cp \<Longrightarrow> P rest s stops \<Longrightarrow> P (cp # rest) s stops"
    and "\<And>cp rest s stops l.
           containerListeners s cp = Some l \<Longrightarrow> prefix (cid @ '':'') cp \<Longrightarrow>
           P rest (afterDelete s cp l) (stops @ [(cp, l, afterDelete s cp l)]) \<Longrightarrow>
           P (cp # rest) s stops"
  shows "P order s stops"
proof (induction order arbitrary: s stops)
  case Nil
  show ?case by (rule assms(1))
next
  case (Cons cp rest)
  show ?case
  proof (cases "containerListeners s cp")
    case None
    then show ?thesis by (rule assms(2)) (rule Cons.IH)
  next
    case (Some l)
    show ?thesis
    proof (cases "prefix (cid @ '':'') cp")
      case True
      with Some show ?thesis by (rule assms(4)) (rule Cons.IH)
    next
      case False
      then show ?thesis by (rule assms(3)) (rule Cons.IH)
    qed
  qed
qed

lemma removeLoop_sourceAddrs_dom:
  "dom (sourceAddrs (fst (snd (removeLoop e cid order s stops)))) = dom (sourceAddrs s)"
  by (induction order s stops rule: removeLoop_induct [where cid = cid])
     (simp_all add: removeLoop_step afterDelete_simps del: removeLoop.simps(2))

lemma removeLoop_completes:
  "\<forall>l. closeAllConnsSent e l \<Longrightarrow> fst (removeLoop e cid order s stops)"
  by (induction order s stops rule: removeLoop_induct [where cid = cid])
     (simp_all add: removeLoop_step Stop_def del: removeLoop.simps(2))

lemma removeLoop_registry:
  "removeLoop e cid order s stops = (True, s', stops') \<Longrightarrow>
   containerListeners s' k =
     (if k \<in> set order \<and> prefix (cid @ '':'') k then None else containerListeners s k)"
  by (induction order s stops rule: removeLoop_induct [where cid = cid])
     (auto simp: removeLoop_step afterDelete_simps simp del: removeLoop.simps(2) split: if_splits)

lemma removeLoop_zone_None:
  "removeLoop e cid order s stops = (b, s', stops') \<Longrightarrow> dnsZone s n = None \<Longrightarrow>
   dnsZone s' n = None"
  by (induction order s stops rule: removeLoop_induct [where cid = cid])
     (auto simp: removeLoop_step afterDelete_simps simp del: removeLoop.simps(2) split: if_splits)

lemma removeLoop_claim_None:
  "removeLoop e cid order s stops = (b, s', stops') \<Longrightarrow> claim (sourceAddrs s) a p = None \<Longrightarrow>
   claim (sourceAddrs s') a p = None"
  by (induction order s stops rule: removeLoop_induct [where cid = cid])
     (auto simp: removeLoop_step afterDelete_simps simp del: removeLoop.simps(2) split: if_splits)

lemma removeLoop_stops_grow:
  "removeLoop e cid order s stops = (b, s', stops') \<Longrightarrow> set stops \<subseteq> set stops'"
  by (induction order s stops rule: removeLoop_induct [where cid = cid])
     (auto simp: removeLoop_step simp del: removeLoop.simps(2) split: if_splits)

text \<open>Every call of Stop is made for an entry of the container that was registered, and
  at the moment of the call the entry, its hostname and its claim are gone.\<close>

lemma removeLoop_stops:
  "removeLoop e cid order s stops = (b, s', stops') \<Longrightarrow> (k, l, st) \<in> set stops' \<Longrightarrow>
   (k, l, st) \<in> set stops \<or>
   (k \<in> set order \<and> prefix (cid @ '':'') k \<and> containerListeners s k = Some l \<and>
    containerListeners st k = None \<and> dnsZone st (DNSName l) = None \<and>
    claim (sourceAddrs st) (IP (Src l)) (Port (Src l)) = None)"
proof (induction order s stops rule: removeLoop_induct [where cid = cid])
  case (Nil s stops)
  then show ?case by simp
next
  case (absent cp rest s stops)
  then show ?case by (auto simp: removeLoop_step simp del: removeLoop.simps(2))
next
  case (other cp rest s stops)
  then show ?case by (auto simp: removeLoop_step simp del: removeLoop.simps(2))
next
  case (hit cp rest s stops l')
  let ?s = "afterDelete s cp l'"
  show ?case
  proof (cases "Stop e l'")
    case False
    with hit.prems hit.hyps show ?thesis
      by (auto simp: removeLoop_step afterDelete_simps simp del: removeLoop.simps(2))
  next
    case True
    with hit.prems hit.hyps
    have rec: "removeLoop e cid rest ?s (stops @ [(cp, l', ?s)]) = (b, s', stops')"
      by (simp add: removeLoop_step del: removeLoop.simps(2))
    from hit.IH [OF rec hit.prems(2)] hit.hyps show ?thesis
      by (auto simp: afterDelete_simps split: if_splits)
  qed
qed

lemma removeLoop_unpublished:
  "removeLoop e cid order s stops = (True, s', stops') \<Longrightarrow>
   k \<in> set order \<Longrightarrow> prefix (cid @ '':'') k \<Longrightarrow> containerListeners s k = Some l \<Longrightarrow>
   dnsZone s' (DNSName l) = None \<and> claim (sourceAddrs s') (IP (Src l)) (Port (Src l)) = None \<and>
   (\<exists>st. (k, l, st) \<in> set stops')"
proof (induction order s stops rule: removeLoop_induct [where cid = cid])
  case (Nil s stops)
  then show ?case by simp
next
  case (absent cp rest s stops)
  then show ?case by (auto simp: removeLoop_step simp del: removeLoop.simps(2))
next
  case (other cp rest s stops)
  then show ?case by (auto simp: removeLoop_step simp del: removeLoop.simps(2))
next
  case (hit cp rest s stops l')
  let ?s = "afterDelete s cp l'"
  from hit.prems(1) hit.hyps have st: "Stop e l'"
    and rec: "removeLoop e cid rest ?s (stops @ [(cp, l', ?s)]) = (True, s', stops')"
    by (auto simp: removeLoop_step simp del: removeLoop.simps(2) split: if_splits)
  show ?case
  proof (cases "k = cp")
    case True
    with hit.hyps hit.prems have ll: "l' = l" by simp
    have "dnsZone ?s (DNSName l) = None"
      "claim (sourceAddrs ?s) (IP (Src l)) (Port (Src l)) = None"
      by (simp_all add: afterDelete_simps ll)
    with removeLoop_zone_None [OF rec] removeLoop_claim_None [OF rec]
    have "dnsZone s' (DNSName l) = None"
      "claim (sourceAddrs s') (IP (Src l)) (Port (Src l)) = None" by blast+
    moreover from removeLoop_stops_grow [OF rec] True ll
    have "\<exists>st. (k, l, st) \<in> set stops'" by auto
    ultimately show ?thesis by simp
  next
    case False
    with hit.prems have "k \<in> set rest" "containerListeners ?s k = Some l"
      by (simp_all add: afterDelete_simps)
    with hit.IH [OF rec] hit.prems(3) show ?thesis by simp
  qed
qed

section \<open>Properties of the hostname derivation\<close>

lemma collapse_dropWhile:
  "collapseHyphens (dropWhile isHyphen xs) = dropWhile isHyphen (collapseHyphens xs)"
  by (induction xs rule: collapseHyphens.induct) simp_all

lemma collapse_hyphen_Cons:
  "collapseHyphens (CHR ''-'' # xs) = CHR ''-'' # dropWhile isHyphen (collapseHyphens xs)"
  by (simp add: collapse_dropWhile)

lemma collapse_Nil_iff: "collapseHyphens xs = [] \<longleftrightarrow> xs = []"
  by (cases xs) simp_all

lemma hd_collapse: "xs \<noteq> [] \<Longrightarrow> hd (collapseHyphens xs) = hd xs"
  by (cases xs) simp_all

lemma last_dropWhile:
  "dropWhile P xs \<noteq> [] \<Longrightarrow> last (dropWhile P xs) = last xs"
  using last_appendR [of "dropWhile P xs" "takeWhile P xs"] by simp

lemma collapse_snoc:
  "collapseHyphens (xs @ [c]) =
     (if c = CHR ''-'' \<and> xs \<noteq> [] \<and> last xs = CHR ''-'' then collapseHyphens xs
      else collapseHyphens xs @ [c])"
proof (induction xs rule: collapseHyphens.induct)
  case 1
  show ?case by simp
next
  case (2 d ds)
  show ?case
  proof (cases "d = CHR ''-''")
    case False
    from 2(2) [OF False] False show ?thesis by simp
  next
    case True
    have L: "collapseHyphens ((d # ds) @ [c]) =
        CHR ''-'' # collapseHyphens (dropWhile isHyphen (ds @ [c]))"
      using True by simp
    have R: "collapseHyphens (d # ds) = CHR ''-'' # collapseHyphens (dropWhile isHyphen ds)"
      using True by simp
    show ?thesis
    proof (cases "dropWhile isHyphen ds = []")
      case True
      then have all: "\<And>x. x \<in> set ds \<Longrightarrow> x = CHR ''-''"
        by (simp add: dropWhile_eq_Nil_conv)
      then have dw: "dropWhile isHyphen (ds @ [c]) = dropWhile isHyphen [c]"
        by (rule dropWhile_append2)
      have "last (d # ds) \<in> set (d # ds)" by (rule last_in_set) simp
      with all \<open>d = CHR ''-''\<close> have la: "last (d # ds) = CHR ''-''" by auto
      show ?thesis unfolding L R dw True la by simp
    next
      case False
      then obtain x where x: "x \<in> set ds" "\<not> isHyphen x"
        by (auto simp: dropWhile_eq_Nil_conv)
      then have dw: "dropWhile isHyphen (ds @ [c]) = dropWhile isHyphen ds @ [c]"
        by (rule dropWhile_append1)
      from x have ne: "ds \<noteq> []" by auto
      from last_dropWhile [OF False] ne
      have la: "last (d # ds) = last (dropWhile isHyphen ds)" by simp
      note ih = 2(1) [OF \<open>d = CHR ''-''\<close>]
      show ?thesis unfolding L R dw la ih using False by simp
    qed
  qed
qed

lemma collapse_rev: "collapseHyphens (rev xs) = rev (collapseHyphens xs)"
proof (induction xs)
  case Nil
  show ?case by simp
next
  case (Cons x xs)
  have "collapseHyphens (rev (x # xs)) = collapseHyphens (rev xs @ [x])" by simp
  also have "\<dots> = (if x = CHR ''-'' \<and> rev xs \<noteq> [] \<and> last (rev xs) = CHR ''-''
      then collapseHyphens (rev xs) else collapseHyphens (rev xs) @ [x])"
    by (rule collapse_snoc)
  also have "\<dots> = (if x = CHR ''-'' \<and> xs \<noteq> [] \<and> hd xs = CHR ''-''
      then rev (collapseHyphens xs) else rev (collapseHyphens xs) @ [x])"
    by (simp add: Cons.IH last_rev)
  also have "\<dots> = rev (collapseHyphens (x # xs))"
  proof (cases "x = CHR ''-''")
    case False
    then show ?thesis by simp
  next
    case True
    show ?thesis
    proof (cases xs)
      case Nil
      with True show ?thesis by simp
    next
      case (Cons y ys)
      show ?thesis
      proof (cases "y = CHR ''-''")
        case True
        with \<open>x = CHR ''-''\<close> Cons show ?thesis by simp
      next
        case False
        with \<open>x = CHR ''-''\<close> Cons show ?thesis by simp
      qed
    qed
  qed
  finally show ?case .
qed

lemma collapse_trim: "collapseHyphens (trimHyphens xs) = trimHyphens (collapseHyphens xs)"
  by (simp add: trimHyphens_def collapse_rev collapse_dropWhile)

lemma dropWhile_map_subst:
  "dropWhile isHyphen (map (\<lambda>c. if allowedChar c then c else CHR ''-'')
       (dropWhile (\<lambda>x. \<not> allowedChar x) cs)) =
   dropWhile isHyphen (map (\<lambda>c. if allowedChar c then c else CHR ''-'') cs)"
  by (induction cs) simp_all

lemma collapse_replaceDisallowed:
  "collapseHyphens (replaceDisallowed s) =
   collapseHyphens (map (\<lambda>c. if allowedChar c then c else CHR ''-'') s)"
proof (induction s rule: replaceDisallowed.induct)
  case 1
  show ?case by simp
next
  case (2 c cs)
  let ?sub = "\<lambda>c. if allowedChar c then c else CHR ''-''"
  show ?case
  proof (cases "allowedChar c")
    case True
    with 2(1) show ?thesis by (simp add: collapse_dropWhile)
  next
    case False
    have "dropWhile isHyphen (collapseHyphens (map ?sub (dropWhile (\<lambda>x. \<not> allowedChar x) cs))) =
          dropWhile isHyphen (collapseHyphens (map ?sub cs))"
      unfolding collapse_dropWhile [symmetric] dropWhile_map_subst ..
    with False 2(2) show ?thesis by (simp add: collapse_dropWhile)
  qed
qed

lemma dnsName_amended: "dnsNameFromContainerName name = amendedHostname name"
  by (simp add: dnsNameFromContainerName_def amendedHostname_def collapse_trim
        collapse_replaceDisallowed)


lemma set_dropWhile_subset: "set (dropWhile P xs) \<subseteq> set xs"
  by (auto dest: set_dropWhileD)

lemma set_collapse: "set (collapseHyphens xs) \<subseteq> set xs"
proof (induction xs rule: collapseHyphens.induct)
  case 1
  show ?case by simp
next
  case (2 c cs)
  show ?case
  proof (cases "c = CHR ''-''")
    case True
    from 2(1) [OF True] set_dropWhile_subset [of isHyphen cs]
    have "set (collapseHyphens (dropWhile isHyphen cs)) \<subseteq> set cs"
      by (rule subset_trans)
    with True show ?thesis by auto
  next
    case False
    with 2(2) [OF False] show ?thesis by auto
  qed
qed

lemma set_trim: "set (trimHyphens xs) \<subseteq> set xs"
proof -
  have "set (trimHyphens xs) = set (dropWhile isHyphen (rev (dropWhile isHyphen xs)))"
    by (simp add: trimHyphens_def)
  also have "\<dots> \<subseteq> set (rev (dropWhile isHyphen xs))" by (rule set_dropWhile_subset)
  also have "\<dots> = set (dropWhile isHyphen xs)" by simp
  also have "\<dots> \<subseteq> set xs" by (rule set_dropWhile_subset)
  finally show ?thesis .
qed

lemma allowed_amended: "c \<in> set (amendedHostname name) \<Longrightarrow> allowedChar c"
proof -
  assume "c \<in> set (amendedHostname name)"
  with set_trim set_collapse
  have "c \<in> set (map (\<lambda>c. if allowedChar c then c else CHR ''-'') name)"
    unfolding amendedHostname_def by blast
  then show ?thesis by (auto simp: allowedChar_def)
qed

lemma no_double_hyphen: "\<not> sublist ''--'' (collapseHyphens xs)"
proof (induction xs rule: collapseHyphens.induct)
  case 1
  show ?case by simp
next
  case (2 c cs)
  show ?case
  proof (cases "c = CHR ''-''")
    case True
    let ?r = "collapseHyphens (dropWhile isHyphen cs)"
    have "\<not> prefix ''-'' ?r"
    proof
      assume "prefix ''-'' ?r"
      then have ne: "?r \<noteq> []" and h: "hd ?r = CHR ''-''" by (auto simp: prefix_def)
      from ne have d: "dropWhile isHyphen cs \<noteq> []" by (simp add: collapse_Nil_iff)
      with h have "hd (dropWhile isHyphen cs) = CHR ''-''" by (simp add: hd_collapse)
      with hd_dropWhile [OF d] show False by simp
    qed
    with 2(1) [OF True] True show ?thesis by (simp add: sublist_Cons_right)
  next
    case False
    with 2(2) [OF False] show ?thesis by (simp add: sublist_Cons_right)
  qed
qed

lemma trim_ends:
  assumes "trimHyphens xs \<noteq> []"
  shows "hd (trimHyphens xs) \<noteq> CHR ''-'' \<and> last (trimHyphens xs) \<noteq> CHR ''-''"
proof -
  define u where "u = dropWhile isHyphen xs"
  define ys where "ys = dropWhile isHyphen (rev u)"
  have t: "trimHyphens xs = rev ys" by (simp add: trimHyphens_def ys_def u_def)
  from assms have ys: "ys \<noteq> []" unfolding t by simp
  then have ys': "dropWhile isHyphen (rev u) \<noteq> []" unfolding ys_def .
  have u: "u \<noteq> []"
  proof
    assume "u = []"
    then have "ys = []" by (simp add: ys_def)
    with ys show False ..
  qed
  then have u': "dropWhile isHyphen xs \<noteq> []" unfolding u_def .
  have "last (trimHyphens xs) = hd ys" unfolding t by (rule last_rev)
  moreover from hd_dropWhile [OF ys'] have "hd ys \<noteq> CHR ''-''" unfolding ys_def .
  ultimately have l: "last (trimHyphens xs) \<noteq> CHR ''-''" by metis
  have "hd (trimHyphens xs) = last ys" unfolding t by (rule hd_rev)
  also have "\<dots> = last (rev u)" unfolding ys_def using ys' by (rule last_dropWhile)
  also have "\<dots> = hd u" by (rule last_rev)
  finally have "hd (trimHyphens xs) = hd u" .
  moreover from hd_dropWhile [OF u'] have "hd u \<noteq> CHR ''-''" unfolding u_def .
  ultimately have "hd (trimHyphens xs) \<noteq> CHR ''-''" by metis
  then show ?thesis using l by (rule conjI)
qed

section \<open>Evaluation of the examples\<close>

lemmas ex_defs = exEnv_def exDest_def exSrc1_def exSrc2_def exTable1_def exTable2_def
  exPortEphemeral_def exPortPublished_def exWeb_def

lemma dnsName_web_1: "dnsNameFromContainerName ''/web_1'' = ''web-1''"
  by (simp add: dnsNameFromContainerName_def trimHyphens_def allowedChar_def)

lemma ex_alloc1:
  "sourceAddrForPort exEnv 80 exDest [] Map.empty = Inr (exSrc1, exTable1)"
  by (simp add: sourceAddrForPort_def getSourceAddr_def SourceStartIP_def Let_def ex_defs)

lemma succIP_start: "succIP (IPv4 127 2 2 1) = IPv4 127 2 2 2"
  by (simp add: succIP_def)

lemma ex_alloc2:
  "sourceAddrForPort exEnv 80 exDest [IPv4 127 2 2 1] exTable1 = Inr (exSrc2, exTable2)"
  by (simp add: sourceAddrForPort_def getSourceAddr_def succIP_start Let_def ex_defs)

lemma ex_reach1: "allocReach exTable1 [exSrc1]"
  by (rule allocReach.allocate [OF allocReach.start _ ex_alloc1]) (simp add: rangeOrder_def)

lemma ex_order1: "rangeOrder exTable1 [IPv4 127 2 2 1]"
  by (simp add: rangeOrder_def exTable1_def)

lemma ex_construct_ephemeral:
  "ListenerFromContainerAndPort exEnv exWeb exPortEphemeral [] initState =
     Inr (Inr exListenerEphemeral,
          initState\<lparr>sourceAddrs := [IPv4 127 2 2 1 \<mapsto> [8080 \<mapsto> Dest exListenerEphemeral]]\<rparr>)"
  by (simp add: ListenerFromContainerAndPort_def dnsName_web_1 IsUnspecified_def
        sourceAddrForPort_def getSourceAddr_def SourceStartIP_def Let_def initState_def
        exListenerEphemeral_def ex_defs)

lemma ex_construct_published:
  "ListenerFromContainerAndPort exEnv exWeb exPortPublished [] initState =
     Inr (Inr exListenerPublished,
          initState\<lparr>sourceAddrs := [IPv4 127 2 2 1 \<mapsto> [32768 \<mapsto> Dest exListenerPublished]]\<rparr>)"
  by (simp add: ListenerFromContainerAndPort_def dnsName_web_1 IsUnspecified_def
        sourceAddrForPort_def getSourceAddr_def SourceStartIP_def Let_def initState_def
        exListenerPublished_def ex_defs)

lemma dnsName_hashes: "dnsNameFromContainerName ''####'' = []"
  by (simp add: dnsNameFromContainerName_def trimHyphens_def allowedChar_def)

lemma showInt_8080: "showInt 8080 = ''8080''"
  by (simp add: showInt_def showNat.simps)


lemma ex_key_aa: "containerPortKey exWeb exPortEphemeral = ''aa:8080''"
  by (simp add: containerPortKey_def exWeb_def exPortEphemeral_def showInt_8080)


lemma ex_construct_A:
  "ListenerFromContainerAndPort exEnvWeb exWeb exPortEphemeral [] initState =
     Inr (Inr (exListenerA\<lparr>tcpListener := False\<rparr>),
          initState\<lparr>sourceAddrs := [IPv4 127 2 2 1 \<mapsto> [8080 \<mapsto> exDest]]\<rparr>)"
  by (simp add: ListenerFromContainerAndPort_def dnsName_web_1 IsUnspecified_def
        sourceAddrForPort_def getSourceAddr_def SourceStartIP_def Let_def initState_def
        exListenerA_def exEnvWeb_def ex_defs)

lemma ex_add_A: "addContainer exEnvWeb ''aa'' [[]] initState = Inr ([exListenerA], exStateA)"
proof -
  have i: "InspectContainer exEnvWeb ''aa'' = Some exWeb" by (simp add: exEnvWeb_def)
  have p: "Ports exWeb = [exPortEphemeral]" by (simp add: exWeb_def)
  have k: "containerListeners initState (containerPortKey exWeb exPortEphemeral) = None"
    by (simp add: initState_def)
  have c: "ListenerFromContainerAndPort exEnvWeb exWeb exPortEphemeral
       (case [[]] of [] \<Rightarrow> [] | ord # _ \<Rightarrow> ord) initState =
     Inr (Inr (exListenerA\<lparr>tcpListener := False\<rparr>),
          initState\<lparr>sourceAddrs := [IPv4 127 2 2 1 \<mapsto> [8080 \<mapsto> exDest]]\<rparr>)"
    using ex_construct_A by simp
  have st: "Start exEnvWeb (exListenerA\<lparr>tcpListener := False\<rparr>) = Inr exListenerA"
    by (simp add: Start_def exEnvWeb_def exEnv_def exListenerA_def)
  have "addLoop exEnvWeb exWeb [exPortEphemeral] [[]] initState [] = Inr ([exListenerA], exStateA)"
    unfolding addLoop_started [OF k c st]
    by (simp add: ex_key_aa exStateA_def initState_def exListenerA_def)
  then show ?thesis by (simp add: addContainer_def i p)
qed

lemma ex_order_AB: "rangeOrder (containerListeners exStateAB) [''bb:8080'', ''aa:8080'']"
  by (auto simp: rangeOrder_def exStateAB_def)

lemma ex_all_sent: "\<forall>l. closeAllConnsSent exEnvWeb l"
  by (simp add: exEnvWeb_def exEnv_def)



lemma showInt_9090: "showInt 9090 = ''9090''"
  by (simp add: showInt_def showNat.simps)

lemma ex_key_two_first: "containerPortKey exWebTwo exPortEphemeral = ''aa:8080''"
  by (simp add: containerPortKey_def exWebTwo_def exPortEphemeral_def showInt_8080)

lemma ex_key_two_second: "containerPortKey exWebTwo exPortSecond = ''aa:9090''"
  by (simp add: containerPortKey_def exWebTwo_def exPortSecond_def showInt_9090)

lemma ex_construct_two_first:
  "ListenerFromContainerAndPort exEnvBlocked exWebTwo exPortEphemeral [] initState =
     Inr (Inr (exListenerA\<lparr>tcpListener := False\<rparr>),
          initState\<lparr>sourceAddrs := [IPv4 127 2 2 1 \<mapsto> [8080 \<mapsto> exDest]]\<rparr>)"
  by (simp add: ListenerFromContainerAndPort_def dnsName_web_1 IsUnspecified_def
        sourceAddrForPort_def getSourceAddr_def SourceStartIP_def Let_def initState_def
        exListenerA_def exEnvBlocked_def exWebTwo_def ex_defs)

lemma ex_construct_two_second:
  "ListenerFromContainerAndPort exEnvBlocked exWebTwo exPortSecond [IPv4 127 2 2 1] exStateA =
     Inr (Inr (exListenerC\<lparr>tcpListener := False\<rparr>),
          exStateA\<lparr>sourceAddrs :=
            [IPv4 127 2 2 1 \<mapsto> [8080 \<mapsto> exDest, 9090 \<mapsto> exDestSecond]]\<rparr>)"
  by (simp add: ListenerFromContainerAndPort_def dnsName_web_1 IsUnspecified_def
        sourceAddrForPort_def getSourceAddr_def Let_def exStateA_def
        exListenerC_def exDestSecond_def exPortSecond_def exEnvBlocked_def exWebTwo_def ex_defs)

lemma ex_add_two:
  "addContainer exEnvBlocked ''aa'' [[], [IPv4 127 2 2 1]] initState =
     Inr ([exListenerA, exListenerC], exStateTwo)"
proof -
  have i: "InspectContainer exEnvBlocked ''aa'' = Some exWebTwo"
    by (simp add: exEnvBlocked_def)
  have p: "Ports exWebTwo = [exPortEphemeral, exPortSecond]" by (simp add: exWebTwo_def)
  have k1: "containerListeners initState (containerPortKey exWebTwo exPortEphemeral) = None"
    by (simp add: initState_def)
  have c1: "ListenerFromContainerAndPort exEnvBlocked exWebTwo exPortEphemeral
       (case [[], [IPv4 127 2 2 1]] of [] \<Rightarrow> [] | ord # _ \<Rightarrow> ord) initState =
     Inr (Inr (exListenerA\<lparr>tcpListener := False\<rparr>),
          initState\<lparr>sourceAddrs := [IPv4 127 2 2 1 \<mapsto> [8080 \<mapsto> exDest]]\<rparr>)"
    using ex_construct_two_first by simp
  have st1: "Start exEnvBlocked (exListenerA\<lparr>tcpListener := False\<rparr>) = Inr exListenerA"
    by (simp add: Start_def exEnvBlocked_def exEnv_def exListenerA_def)
  have mid: "initState\<lparr>sourceAddrs := [IPv4 127 2 2 1 \<mapsto> [8080 \<mapsto> exDest]]\<rparr>
      \<lparr>containerListeners :=
         (containerListeners (initState\<lparr>sourceAddrs := [IPv4 127 2 2 1 \<mapsto> [8080 \<mapsto> exDest]]\<rparr>))
           (containerPortKey exWebTwo exPortEphemeral \<mapsto> exListenerA),
       dnsZone :=
         (dnsZone (initState\<lparr>sourceAddrs := [IPv4 127 2 2 1 \<mapsto> [8080 \<mapsto> exDest]]\<rparr>))
           (DNSName exListenerA \<mapsto> IP (Src exListenerA))\<rparr> = exStateA"
    by (simp add: ex_key_two_first exStateA_def initState_def exListenerA_def)
  have s1: "addLoop exEnvBlocked exWebTwo [exPortEphemeral, exPortSecond]
       [[], [IPv4 127 2 2 1]] initState [] =
     addLoop exEnvBlocked exWebTwo [exPortSecond] [[IPv4 127 2 2 1]] exStateA [exListenerA]"
    unfolding addLoop_started [OF k1 c1 st1] mid by simp
  have k2: "containerListeners exStateA (containerPortKey exWebTwo exPortSecond) = None"
    by (simp add: ex_key_two_second exStateA_def)
  have c2: "ListenerFromContainerAndPort exEnvBlocked exWebTwo exPortSecond
       (case [[IPv4 127 2 2 1]] of [] \<Rightarrow> [] | ord # _ \<Rightarrow> ord) exStateA =
     Inr (Inr (exListenerC\<lparr>tcpListener := False\<rparr>),
          exStateA\<lparr>sourceAddrs :=
            [IPv4 127 2 2 1 \<mapsto> [8080 \<mapsto> exDest, 9090 \<mapsto> exDestSecond]]\<rparr>)"
    using ex_construct_two_second by simp
  have st2: "Start exEnvBlocked (exListenerC\<lparr>tcpListener := False\<rparr>) = Inr exListenerC"
    by (simp add: Start_def exEnvBlocked_def exEnv_def exListenerC_def)
  have s2: "addLoop exEnvBlocked exWebTwo [exPortSecond] [[IPv4 127 2 2 1]] exStateA [exListenerA] =
     Inr ([exListenerA, exListenerC], exStateTwo)"
    unfolding addLoop_started [OF k2 c2 st2]
    by (simp add: ex_key_two_second exStateA_def exStateTwo_def exListenerC_def)
  from s1 s2 have "addLoop exEnvBlocked exWebTwo (Ports exWebTwo)
       [[], [IPv4 127 2 2 1]] initState [] = Inr ([exListenerA, exListenerC], exStateTwo)"
    unfolding p by (rule trans)
  then show ?thesis by (simp only: addContainer_def i option.case)
qed

lemma ex_remove_two_blocked:
  "removeContainer exEnvBlocked ''aa'' [''aa:8080'', ''aa:9090''] exStateTwo =
     (False, afterDelete exStateTwo ''aa:8080'' exListenerA,
      [(''aa:8080'', exListenerA, afterDelete exStateTwo ''aa:8080'' exListenerA)])"
proof -
  have l: "containerListeners exStateTwo ''aa:8080'' = Some exListenerA"
    by (simp add: exStateTwo_def)
  have p: "prefix (''aa'' @ '':'') ''aa:8080''" by simp
  have st: "\<not> Stop exEnvBlocked exListenerA"
    by (simp add: Stop_def exEnvBlocked_def exListenerA_def)
  show ?thesis
    unfolding removeContainer_def removeLoop_hit [OF l p] using st by simp
qed

section \<open>The claims\<close>

subsection \<open>C1: allocation uniqueness\<close>

lemma allocReach_inv:
  "allocReach m live \<Longrightarrow>
   distinct (map (\<lambda>s. (IP s, Port s)) live) \<and>
   (\<forall>s\<in>set live. claim m (IP s) (Port s) \<noteq> None)"
proof (induction rule: allocReach.induct)
  case start
  show ?case by simp
next
  case (allocate m live order e port dest src m')
  note c = sourceAddrForPort_claims [OF allocate.hyps(3) allocate.hyps(2)]
  from c have none: "claim m (IP src) (Port src) = None" by blast
  have notin: "(IP src, Port src) \<notin> set (map (\<lambda>s. (IP s, Port s)) live)"
  proof
    assume "(IP src, Port src) \<in> set (map (\<lambda>s. (IP s, Port s)) live)"
    then obtain s where "s \<in> set live" "IP s = IP src" "Port s = Port src" by auto
    with allocate.IH have "claim m (IP src) (Port src) \<noteq> None" by metis
    with none show False by simp
  qed
  have "\<forall>s\<in>set (src # live). claim m' (IP s) (Port s) \<noteq> None"
  proof
    fix s assume "s \<in> set (src # live)"
    then consider "s = src" | "s \<in> set live" by auto
    then show "claim m' (IP s) (Port s) \<noteq> None"
    proof cases
      case 1 with c show ?thesis by auto
    next
      case 2
      then have "(IP s, Port s) \<in> (\<lambda>s. (IP s, Port s)) ` set live" by (rule imageI)
      with notin have "(IP s, Port s) \<noteq> (IP src, Port src)" by auto
      with c have "claim m' (IP s) (Port s) = claim m (IP s) (Port s)" by blast
      with allocate.IH 2 show ?thesis by simp
    qed
  qed
  with notin allocate.IH show ?case by simp
next
  case (release m live addr port)
  let ?f = "\<lambda>s::srcAddr. (IP s, Port s)"
  let ?live = "filter (\<lambda>s. ?f s \<noteq> (addr, port)) live"
  from release.IH have "distinct (map ?f live)" by simp
  then have d': "distinct (map ?f ?live)" by (rule distinct_map_filter)
  have "\<forall>s\<in>set ?live. claim (deleteClaim addr port m) (IP s) (Port s) \<noteq> None"
  proof
    fix s assume "s \<in> set ?live"
    then have sl: "s \<in> set live" and ne: "?f s \<noteq> (addr, port)" by simp_all
    from release.IH sl have "claim m (IP s) (Port s) \<noteq> None" by simp
    with ne show "claim (deleteClaim addr port m) (IP s) (Port s) \<noteq> None"
      by (auto simp: claim_deleteClaim)
  qed
  with d' show ?case by simp
qed

text \<open>
  C1. In every state the allocator reaches from the empty table by calls of
  \<^verbatim>\<open>sourceAddrForPort\<close> and releases, in any sequence, no two live claims share their
  (address, port) pair, and every live claim is recorded in the table (which, being a
  map from ports to destinations for each address, holds at most one destination for a
  port). A further call of \<^verbatim>\<open>sourceAddrForPort\<close> never returns a pair that is live: the
  pair it returns was unclaimed, is claimed for the given destination afterwards, and no
  other claim changes.
\<close>

theorem allocation_uniqueness:
  assumes "allocReach m live"
  shows "distinct (map (\<lambda>s. (IP s, Port s)) live) \<and>
         (\<forall>s\<in>set live. claim m (IP s) (Port s) \<noteq> None) \<and>
         (\<forall>e port dest order src m'.
            rangeOrder m order \<and> sourceAddrForPort e port dest order m = Inr (src, m') \<longrightarrow>
              (IP src, Port src) \<notin> set (map (\<lambda>s. (IP s, Port s)) live) \<and>
              claim m (IP src) (Port src) = None \<and>
              claim m' (IP src) (Port src) = Some dest \<and>
              (\<forall>a p. (a, p) \<noteq> (IP src, Port src) \<longrightarrow> claim m' a p = claim m a p))"
proof -
  note inv = allocReach_inv [OF assms]
  have "\<forall>e port dest order src m'.
            rangeOrder m order \<and> sourceAddrForPort e port dest order m = Inr (src, m') \<longrightarrow>
              (IP src, Port src) \<notin> set (map (\<lambda>s. (IP s, Port s)) live) \<and>
              claim m (IP src) (Port src) = None \<and>
              claim m' (IP src) (Port src) = Some dest \<and>
              (\<forall>a p. (a, p) \<noteq> (IP src, Port src) \<longrightarrow> claim m' a p = claim m a p)"
  proof (intro allI impI)
    fix e port dest order src m'
    assume a: "rangeOrder m order \<and> sourceAddrForPort e port dest order m = Inr (src, m')"
    then have ord: "rangeOrder m order" and ok: "sourceAddrForPort e port dest order m = Inr (src, m')"
      by simp_all
    note c = sourceAddrForPort_claims [OF ok ord]
    have r: "allocReach m' (src # live)"
      by (rule allocReach.allocate [OF assms ord ok])
    from allocReach_inv [OF r] have "(IP src, Port src) \<notin> set (map (\<lambda>s. (IP s, Port s)) live)"
      by simp
    with c r show "(IP src, Port src) \<notin> set (map (\<lambda>s. (IP s, Port s)) live) \<and>
              claim m (IP src) (Port src) = None \<and>
              claim m' (IP src) (Port src) = Some dest \<and>
              (\<forall>a p. (a, p) \<noteq> (IP src, Port src) \<longrightarrow> claim m' a p = claim m a p)"
      by blast
  qed
  with inv show ?thesis by blast
qed

theorem allocation_uniqueness_witness:
  "allocReach exTable1 [exSrc1] \<and>
   distinct (map (\<lambda>s. (IP s, Port s)) [exSrc1]) \<and>
   claim exTable1 (IP exSrc1) (Port exSrc1) = Some exDest \<and>
   rangeOrder exTable1 [IPv4 127 2 2 1] \<and>
   sourceAddrForPort exEnv 80 exDest [IPv4 127 2 2 1] exTable1 = Inr (exSrc2, exTable2) \<and>
   (IP exSrc2, Port exSrc2) \<notin> set (map (\<lambda>s. (IP s, Port s)) [exSrc1]) \<and>
   claim exTable1 (IP exSrc2) (Port exSrc2) = None \<and>
   claim exTable2 (IP exSrc2) (Port exSrc2) = Some exDest"
  using allocation_uniqueness [OF ex_reach1] ex_reach1 ex_order1 ex_alloc2
  by (simp add: claim_def ex_defs)

subsection \<open>C2: idempotent reconciliation\<close>

text \<open>
  C2. After a call of \<^verbatim>\<open>addContainer\<close> that returned, a second call for the same
  container (the inspector giving the same answer) returns no listener and leaves the
  globals exactly as they were, whatever the visiting orders: every port mapping is
  either registered already and skipped, or fails construction again. So no second
  listener, allocation or hostname publication is made for a registered key; that the
  registry holds at most one listener for a key is its type, a map from keys to listeners.
\<close>

theorem idempotent_reconciliation:
  assumes "addContainer e cid orders s = Inr (out, s1)"
  shows "addContainer e cid orders' s1 = Inr ([], s1)"
proof (cases "InspectContainer e cid")
  case None
  then show ?thesis by (simp add: addContainer_def)
next
  case (Some c)
  with assms have "addLoop e c (Ports c) orders s [] = Inr (out, s1)"
    by (simp add: addContainer_def)
  from addLoop_registered [OF this]
  have "\<forall>p\<in>set (Ports c).
      containerPortKey c p \<in> dom (containerListeners s1) \<or>
      (\<exists>err. \<forall>order2 s2. ListenerFromContainerAndPort e c p order2 s2 = Inr (Inl err, s2))"
    by blast
  then have "addLoop e c (Ports c) orders' s1 [] = Inr ([], s1)"
    by (rule addLoop_noop)
  with Some show ?thesis by (simp add: addContainer_def)
qed

theorem idempotent_reconciliation_witness:
  "addContainer exEnvWeb ''aa'' [[]] initState = Inr ([exListenerA], exStateA) \<and>
   containerListeners exStateA ''aa:8080'' = Some exListenerA \<and>
   addContainer exEnvWeb ''aa'' [[IPv4 127 2 2 1]] exStateA = Inr ([], exStateA)"
proof -
  have "containerListeners exStateA ''aa:8080'' = Some exListenerA"
    by (simp add: exStateA_def)
  with idempotent_reconciliation [OF ex_add_A, of "[[IPv4 127 2 2 1]]"] ex_add_A
  show ?thesis by (intro conjI)
qed

subsection \<open>C4: port-selection policy\<close>

text \<open>
  C4. A listener that \<^verbatim>\<open>ListenerFromContainerAndPort\<close> constructs forwards to the public
  port, and listens on the private port when the public port is at least
  \<^verbatim>\<open>firstEphemeralPort\<close> and on the public port otherwise. With the threshold 49152,
  private port 8080 and public port 51234 give source port 8080; private port 8080 and
  public port 32768 give source port 32768.
\<close>

theorem port_selection_policy:
  assumes "ListenerFromContainerAndPort e c p order s = Inr (Inr l, s')"
  shows "Port (Src l) =
           (if PublicPort p \<ge> firstEphemeralPort e then PrivatePort p else PublicPort p) \<and>
         Port (Dest l) = PublicPort p"
proof -
  note ok = LFCAP_ok [OF assms]
  from ok have al: "sourceAddrForPort e
      (if PublicPort p \<ge> firstEphemeralPort e then PrivatePort p else PublicPort p)
      (Dest l) order (sourceAddrs s) = Inr (Src l, sourceAddrs s')" by blast
  then have "Port (Src l) =
      (if PublicPort p \<ge> firstEphemeralPort e then PrivatePort p else PublicPort p)"
    by (rule sourceAddrForPort_Port)
  with ok show ?thesis by blast
qed

theorem port_selection_policy_witness:
  "firstEphemeralPort exEnv = 49152 \<and>
   PrivatePort exPortEphemeral = 8080 \<and> PublicPort exPortEphemeral = 51234 \<and>
   ListenerFromContainerAndPort exEnv exWeb exPortEphemeral [] initState =
     Inr (Inr exListenerEphemeral,
          initState\<lparr>sourceAddrs := [IPv4 127 2 2 1 \<mapsto> [8080 \<mapsto> Dest exListenerEphemeral]]\<rparr>) \<and>
   Port (Src exListenerEphemeral) = 8080 \<and>
   PrivatePort exPortPublished = 8080 \<and> PublicPort exPortPublished = 32768 \<and>
   ListenerFromContainerAndPort exEnv exWeb exPortPublished [] initState =
     Inr (Inr exListenerPublished,
          initState\<lparr>sourceAddrs := [IPv4 127 2 2 1 \<mapsto> [32768 \<mapsto> Dest exListenerPublished]]\<rparr>) \<and>
   Port (Src exListenerPublished) = 32768"
  using port_selection_policy [OF ex_construct_ephemeral]
    port_selection_policy [OF ex_construct_published]
    ex_construct_ephemeral ex_construct_published
  by (simp add: exEnv_def exPortEphemeral_def exPortPublished_def)

subsection \<open>C5: hostname derivation\<close>

lemma dnsName_examples:
  "dnsNameFromContainerName ''api_server-1'' = ''api-server-1''"
  "dnsNameFromContainerName ''--x--'' = ''x''"
  "dnsNameFromContainerName ''####'' = []"
  "dnsNameFromContainerName ''MyApp'' = ''y-pp''"
  "dnsNameFromContainerName ''a_b'' = ''a-b''"
  by (simp_all add: dnsNameFromContainerName_def trimHyphens_def allowedChar_def)

text \<open>
  C5, as stated, fails: \<^verbatim>\<open>dnsNameFromContainerName\<close> does not strip the characters
  outside \<^verbatim>\<open>[a-z0-9.-]\<close>. The name \<^verbatim>\<open>a_b\<close> becomes \<^verbatim>\<open>a-b\<close>, where stripping,
  collapsing and trimming give \<^verbatim>\<open>ab\<close>.
\<close>

theorem hostname_strip_counterexample:
  "dnsNameFromContainerName ''a_b'' = ''a-b'' \<and> specHostname ''a_b'' = ''ab''"
  by (simp add: dnsNameFromContainerName_def specHostname_def trimHyphens_def allowedChar_def)

text \<open>
  C5, amended. \<^verbatim>\<open>dnsNameFromContainerName\<close> replaces every character outside
  \<^verbatim>\<open>[a-z0-9.-]\<close> by a hyphen (case-sensitively: an uppercase letter is outside the
  class and is not folded to lowercase), collapses consecutive hyphens into one and trims
  leading and trailing hyphens. Its result holds only characters of the class, no two
  consecutive hyphens, and neither begins nor ends with a hyphen. In particular
  \<^verbatim>\<open>api_server-1\<close> yields \<^verbatim>\<open>api-server-1\<close>, \<^verbatim>\<open>--x--\<close> yields \<^verbatim>\<open>x\<close>, and \<^verbatim>\<open>####\<close>
  yields the empty string, on which the construction of a listener fails.
\<close>

theorem hostname_derivation:
  "dnsNameFromContainerName name = amendedHostname name \<and>
   (\<forall>c\<in>set (dnsNameFromContainerName name). allowedChar c) \<and>
   \<not> sublist ''--'' (dnsNameFromContainerName name) \<and>
   (dnsNameFromContainerName name \<noteq> [] \<longrightarrow>
      hd (dnsNameFromContainerName name) \<noteq> CHR ''-'' \<and>
      last (dnsNameFromContainerName name) \<noteq> CHR ''-'') \<and>
   \<not> allowedChar CHR ''M'' \<and>
   dnsNameFromContainerName ''MyApp'' = ''y-pp'' \<and>
   dnsNameFromContainerName ''api_server-1'' = ''api-server-1'' \<and>
   dnsNameFromContainerName ''--x--'' = ''x'' \<and>
   dnsNameFromContainerName ''####'' = [] \<and>
   (Name c = ''####'' \<and> PublicPort p \<noteq> 0 \<and> PrivatePort p \<noteq> 0 \<longrightarrow>
      ListenerFromContainerAndPort e c p order s = Inr (Inl EmptyDNSName, s))"
proof -
  have a: "dnsNameFromContainerName name = amendedHostname name" by (rule dnsName_amended)
  have b: "\<forall>c\<in>set (dnsNameFromContainerName name). allowedChar c"
    unfolding a using allowed_amended by blast
  have c: "\<not> sublist ''--'' (dnsNameFromContainerName name)"
    unfolding dnsNameFromContainerName_def by (rule no_double_hyphen)
  have d: "dnsNameFromContainerName name \<noteq> [] \<longrightarrow>
      hd (dnsNameFromContainerName name) \<noteq> CHR ''-'' \<and>
      last (dnsNameFromContainerName name) \<noteq> CHR ''-''"
    unfolding a amendedHostname_def using trim_ends by blast
  have m: "\<not> allowedChar CHR ''M''" by (simp add: allowedChar_def)
  have f: "Name c = ''####'' \<and> PublicPort p \<noteq> 0 \<and> PrivatePort p \<noteq> 0 \<longrightarrow>
      ListenerFromContainerAndPort e c p order s = Inr (Inl EmptyDNSName, s)"
    by (simp add: ListenerFromContainerAndPort_def dnsName_examples)
  from a b c d m dnsName_examples(4,1,2,3) f show ?thesis by (intro conjI)
qed

theorem hostname_derivation_witness:
  "dnsNameFromContainerName ''/web_1'' = ''web-1'' \<and>
   amendedHostname ''/web_1'' = ''web-1'' \<and>
   allowedChar CHR ''w'' \<and> allowedChar CHR ''-'' \<and> allowedChar CHR ''1'' \<and>
   \<not> sublist ''--'' ''web-1'' \<and>
   hd ''web-1'' \<noteq> CHR ''-'' \<and> last ''web-1'' \<noteq> CHR ''-'' \<and>
   Name exHashes = ''####'' \<and>
   PublicPort exPortEphemeral \<noteq> 0 \<and> PrivatePort exPortEphemeral \<noteq> 0 \<and>
   ListenerFromContainerAndPort exEnv exHashes exPortEphemeral [] initState =
     Inr (Inl EmptyDNSName, initState)"
proof -
  note t = hostname_derivation [where name = "''/web_1''" and c = exHashes
      and p = exPortEphemeral and e = exEnv and order = "[]" and s = initState,
      unfolded dnsName_web_1]
  have h: "Name exHashes = ''####''" "PublicPort exPortEphemeral \<noteq> 0"
    "PrivatePort exPortEphemeral \<noteq> 0"
    by (simp_all add: exHashes_def exPortEphemeral_def)
  from t have 1: "''web-1'' = amendedHostname ''/web_1''" by (rule conjunct1)
  from t have 2: "\<forall>c\<in>set ''web-1''. allowedChar c" by blast
  from t have 3: "\<not> sublist ''--'' ''web-1''" by blast
  from t have 4: "hd ''web-1'' \<noteq> CHR ''-'' \<and> last ''web-1'' \<noteq> CHR ''-''" by blast
  from t h have 5: "ListenerFromContainerAndPort exEnv exHashes exPortEphemeral [] initState =
     Inr (Inl EmptyDNSName, initState)" by blast
  from 2 have 6: "allowedChar CHR ''w''" "allowedChar CHR ''-''" "allowedChar CHR ''1''"
    by simp_all
  from dnsName_web_1 1 [symmetric] 6 3 4 h 5 show ?thesis by (intro conjI) simp_all
qed

subsection \<open>C6: allocation growth\<close>

text \<open>
  C6. A call of \<^verbatim>\<open>sourceAddrForPort\<close> either leaves the set of provisioned addresses as
  it is or adds exactly one new address; the new address is 127.2.2.1 when none was
  provisioned before, and otherwise its 32-bit value is one more than the numerically
  highest provisioned address (without wrapping around). Releasing a claim,
  \<^verbatim>\<open>removeContainer\<close> and \<^verbatim>\<open>addContainer\<close> never remove an address from the table.
\<close>

theorem allocation_growth:
  "(rangeOrder m order \<and> sourceAddrForPort e port dest order m = Inr (src, m') \<longrightarrow>
      dom m' = dom m \<or>
      (dom m' = insert (IP src) (dom m) \<and> IP src \<notin> dom m \<and>
       (dom m = {} \<longrightarrow> IP src = IPv4 127 2 2 1) \<and>
       (dom m \<noteq> {} \<longrightarrow>
          (\<exists>hi\<in>dom m. (\<forall>a\<in>dom m. ipToInt a \<le> ipToInt hi) \<and>
                       ipToInt (IP src) = ipToInt hi + 1 \<and>
                       ipToInt hi < ipToInt (IP src))))) \<and>
   dom (deleteClaim addr p m) = dom m \<and>
   dom (sourceAddrs (fst (snd (removeContainer e cid keys s)))) = dom (sourceAddrs s) \<and>
   (addContainer e cid orders s = Inr (out, s') \<longrightarrow> dom (sourceAddrs s) \<subseteq> dom (sourceAddrs s'))"
proof (intro conjI impI)
  assume a: "rangeOrder m order \<and> sourceAddrForPort e port dest order m = Inr (src, m')"
  then have ord: "rangeOrder m order"
    and ok: "sourceAddrForPort e port dest order m = Inr (src, m')" by simp_all
  from sourceAddrForPort_Inr [OF ok ord]
  consider (reuse) ls where "m (IP src) = Some ls" "m' = m(IP src \<mapsto> ls(port \<mapsto> dest))"
    | (fresh) "m (IP src) = None" "m' = m(IP src \<mapsto> [port \<mapsto> dest])"
        "dom m = {} \<longrightarrow> IP src = SourceStartIP"
        "dom m \<noteq> {} \<longrightarrow>
           (\<exists>hi\<in>dom m. (\<forall>a\<in>dom m. ipToInt a \<le> ipToInt hi) \<and>
                        ipToInt (IP src) = ipToInt hi + 1 \<and> ipToInt hi < ipToInt (IP src))"
    by blast
  then show "dom m' = dom m \<or>
      (dom m' = insert (IP src) (dom m) \<and> IP src \<notin> dom m \<and>
       (dom m = {} \<longrightarrow> IP src = IPv4 127 2 2 1) \<and>
       (dom m \<noteq> {} \<longrightarrow>
          (\<exists>hi\<in>dom m. (\<forall>a\<in>dom m. ipToInt a \<le> ipToInt hi) \<and>
                       ipToInt (IP src) = ipToInt hi + 1 \<and>
                       ipToInt hi < ipToInt (IP src))))"
  proof cases
    case reuse
    then have "dom m' = dom m" by auto
    then show ?thesis ..
  next
    case fresh
    from fresh(1,2) have "dom m' = insert (IP src) (dom m)" "IP src \<notin> dom m" by auto
    with fresh(3,4) show ?thesis by (simp add: SourceStartIP_def)
  qed
next
  show "dom (deleteClaim addr p m) = dom m" by (rule dom_deleteClaim)
next
  show "dom (sourceAddrs (fst (snd (removeContainer e cid keys s)))) = dom (sourceAddrs s)"
    unfolding removeContainer_def by (rule removeLoop_sourceAddrs_dom)
next
  assume "addContainer e cid orders s = Inr (out, s')"
  then show "dom (sourceAddrs s) \<subseteq> dom (sourceAddrs s')"
    by (auto simp: addContainer_def split: option.splits dest: addLoop_sourceAddrs_mono)
qed

theorem allocation_growth_witness:
  "rangeOrder (Map.empty :: addrTable) [] \<and>
   sourceAddrForPort exEnv 80 exDest [] Map.empty = Inr (exSrc1, exTable1) \<and>
   dom exTable1 = {IPv4 127 2 2 1} \<and> IP exSrc1 = IPv4 127 2 2 1 \<and>
   rangeOrder exTable1 [IPv4 127 2 2 1] \<and>
   sourceAddrForPort exEnv 80 exDest [IPv4 127 2 2 1] exTable1 = Inr (exSrc2, exTable2) \<and>
   dom exTable2 = {IPv4 127 2 2 1, IPv4 127 2 2 2} \<and>
   ipToInt (IP exSrc2) = ipToInt (IPv4 127 2 2 1) + 1 \<and>
   dom (deleteClaim (IPv4 127 2 2 1) 80 exTable2) = dom exTable2"
proof -
  have e: "rangeOrder (Map.empty :: addrTable) []" by (simp add: rangeOrder_def)
  have d1: "dom exTable1 = {IPv4 127 2 2 1}"
    and d2: "dom exTable2 = {IPv4 127 2 2 1, IPv4 127 2 2 2}"
    by (auto simp: exTable1_def exTable2_def)
  note g1 = allocation_growth [where m = Map.empty and order = "[]" and e = exEnv and port = 80
      and dest = exDest and src = exSrc1 and m' = exTable1, THEN conjunct1, THEN mp,
      OF conjI [OF e ex_alloc1]]
  note g2 = allocation_growth [where m = exTable1 and order = "[IPv4 127 2 2 1]" and e = exEnv
      and port = 80 and dest = exDest and src = exSrc2 and m' = exTable2,
      THEN conjunct1, THEN mp, OF conjI [OF ex_order1 ex_alloc2]]
  note g3 = allocation_growth [where m = exTable2 and addr = "IPv4 127 2 2 1" and p = 80,
      THEN conjunct2, THEN conjunct1]
  have s1: "IP exSrc1 = IPv4 127 2 2 1"
  proof -
    have "dom exTable1 \<noteq> dom (Map.empty :: addrTable)" unfolding d1 by simp
    with g1 have "dom (Map.empty :: addrTable) = {} \<longrightarrow> IP exSrc1 = IPv4 127 2 2 1"
      by blast
    then show ?thesis by simp
  qed
  have s2: "ipToInt (IP exSrc2) = ipToInt (IPv4 127 2 2 1) + 1"
  proof -
    have ne: "dom exTable2 \<noteq> dom exTable1" "dom exTable1 \<noteq> {}"
      unfolding d1 d2 by simp_all
    with g2
    have "\<exists>hi\<in>dom exTable1. (\<forall>a\<in>dom exTable1. ipToInt a \<le> ipToInt hi) \<and>
            ipToInt (IP exSrc2) = ipToInt hi + 1 \<and> ipToInt hi < ipToInt (IP exSrc2)"
      by blast
    then show ?thesis unfolding d1 by blast
  qed
  from g3 have s3: "dom (deleteClaim (IPv4 127 2 2 1) 80 exTable2) = dom exTable2" .
  from e ex_alloc1 d1 s1 ex_order1 ex_alloc2 d2 s2 s3 show ?thesis
    by (intro conjI)
qed

subsection \<open>C7: first-fit reuse after release\<close>

lemma scanAddrs_reuse_head:
  "m a = Some ls \<Longrightarrow> ls port = None \<Longrightarrow>
   scanAddrs port dest (a # rest) m lastAddr = Inl (a, m(a \<mapsto> ls(port \<mapsto> dest)))"
  by (simp add: Let_def)

text \<open>
  C7. Releasing a claim (the \<^verbatim>\<open>delete\<close> statement of \<^verbatim>\<open>removeContainer\<close>) removes that
  one port from the claims of that one address and keeps every address entry. Whenever
  some provisioned address has the requested port unclaimed, \<^verbatim>\<open>sourceAddrForPort\<close>
  claims the port on a provisioned address that had it unclaimed and adds no address
  (it then returns that address, or panics in \<^verbatim>\<open>getSourceAddr\<close> when the port is not a
  TCP port number). After the release of a port on an address, an allocation of the same
  port whose scan visits that address first returns that address and restores the claim.
\<close>

theorem first_fit_reuse:
  "dom (deleteClaim a port m) = dom m \<and>
   (\<forall>a' p'. claim (deleteClaim a port m) a' p' =
      (if a' = a \<and> p' = port then None else claim m a' p')) \<and>
   (rangeOrder m order \<and> a \<in> dom m \<and> claim m a port = None \<longrightarrow>
      (\<exists>a' ls. m a' = Some ls \<and> ls port = None \<and>
         sourceAddrForPort e port dest order m =
           (if 0 \<le> port \<and> port \<le> 65535
            then Inr (\<lparr>IP = a', Port = port, Zone = []\<rparr>, m(a' \<mapsto> ls(port \<mapsto> dest)))
            else Inl ResolveTCPAddrFailed))) \<and>
   (m a = Some held \<and> 0 \<le> port \<and> port \<le> 65535 \<longrightarrow>
      sourceAddrForPort e port dest (a # rest) (deleteClaim a port m) =
        Inr (\<lparr>IP = a, Port = port, Zone = []\<rparr>, m(a \<mapsto> held(port \<mapsto> dest))))"
proof (intro conjI allI impI)
  show "dom (deleteClaim a port m) = dom m" by (rule dom_deleteClaim)
next
  fix a' p'
  show "claim (deleteClaim a port m) a' p' =
      (if a' = a \<and> p' = port then None else claim m a' p')"
    by (rule claim_deleteClaim)
next
  assume h: "rangeOrder m order \<and> a \<in> dom m \<and> claim m a port = None"
  then obtain ls where ls: "m a = Some ls" "ls port = None"
    by (auto simp: claim_def)
  from h have "a \<in> set order" by (simp add: rangeOrder_def)
  with ls have "\<exists>addr m'. scanAddrs port dest order m None = Inl (addr, m')"
    by (rule_tac scanAddrs_finds [where a = a and ls = ls])
  then obtain addr m1 where sc: "scanAddrs port dest order m None = Inl (addr, m1)" by blast
  from scanAddrs_Inl [OF sc] obtain ls1 where
    l1: "m addr = Some ls1" "ls1 port = None" "m1 = m(addr \<mapsto> ls1(port \<mapsto> dest))" by blast
  have "sourceAddrForPort e port dest order m =
           (if 0 \<le> port \<and> port \<le> 65535
            then Inr (\<lparr>IP = addr, Port = port, Zone = []\<rparr>, m(addr \<mapsto> ls1(port \<mapsto> dest)))
            else Inl ResolveTCPAddrFailed)"
    by (simp add: sourceAddrForPort_def sc l1(3) getSourceAddr_def)
  with l1 show "\<exists>a' ls. m a' = Some ls \<and> ls port = None \<and>
         sourceAddrForPort e port dest order m =
           (if 0 \<le> port \<and> port \<le> 65535
            then Inr (\<lparr>IP = a', Port = port, Zone = []\<rparr>, m(a' \<mapsto> ls(port \<mapsto> dest)))
            else Inl ResolveTCPAddrFailed)"
    by blast
next
  assume h: "m a = Some held \<and> 0 \<le> port \<and> port \<le> 65535"
  then have d: "deleteClaim a port m a = Some (held(port := None))"
    by (simp add: deleteClaim_def)
  have "(held(port := None)) port = None" by simp
  with d have sc: "scanAddrs port dest (a # rest) (deleteClaim a port m) None =
      Inl (a, (deleteClaim a port m)(a \<mapsto> (held(port := None))(port \<mapsto> dest)))"
    by (rule_tac scanAddrs_reuse_head)
  have eq: "(deleteClaim a port m)(a \<mapsto> (held(port := None))(port \<mapsto> dest)) =
      m(a \<mapsto> held(port \<mapsto> dest))"
    using h by (simp add: deleteClaim_def)
  show "sourceAddrForPort e port dest (a # rest) (deleteClaim a port m) =
        Inr (\<lparr>IP = a, Port = port, Zone = []\<rparr>, m(a \<mapsto> held(port \<mapsto> dest)))"
    unfolding sourceAddrForPort_def sc using h by (simp add: getSourceAddr_def deleteClaim_def)
qed


theorem first_fit_reuse_witness:
  "rangeOrder exTableReleased [IPv4 127 2 2 2, IPv4 127 2 2 1] \<and>
   IPv4 127 2 2 1 \<in> dom exTableReleased \<and>
   claim exTableReleased (IPv4 127 2 2 1) 80 = None \<and>
   claim exTableReleased (IPv4 127 2 2 2) 80 = Some exDest \<and>
   dom exTableReleased = dom exTable2 \<and>
   sourceAddrForPort exEnv 80 exDest [IPv4 127 2 2 2, IPv4 127 2 2 1] exTableReleased =
     Inr (exSrc1, exTable2) \<and>
   exTable2 (IPv4 127 2 2 1) = Some [80 \<mapsto> exDest] \<and>
   sourceAddrForPort exEnv 80 exDest [IPv4 127 2 2 1, IPv4 127 2 2 2] exTableReleased =
     Inr (exSrc1, exTable2)"
proof -
  have d2: "dom exTable2 = {IPv4 127 2 2 1, IPv4 127 2 2 2}"
    by (auto simp: exTable1_def exTable2_def)
  have t2: "exTable2 (IPv4 127 2 2 1) = Some [80 \<mapsto> exDest]"
    by (simp add: exTable1_def exTable2_def)
  have c2: "claim exTable2 (IPv4 127 2 2 2) 80 = Some exDest"
    by (simp add: claim_def exTable2_def)
  note f = first_fit_reuse [where a = "IPv4 127 2 2 1" and port = 80 and m = exTable2]
  from f have dm: "dom exTableReleased = dom exTable2"
    unfolding exTableReleased_def by (rule conjunct1)
  from f have cl: "\<forall>a' p'. claim exTableReleased a' p' =
      (if a' = IPv4 127 2 2 1 \<and> p' = 80 then None else claim exTable2 a' p')"
    unfolding exTableReleased_def by blast
  from cl have c1: "claim exTableReleased (IPv4 127 2 2 1) 80 = None" by simp
  from cl c2 have c3: "claim exTableReleased (IPv4 127 2 2 2) 80 = Some exDest" by simp
  have ord: "rangeOrder exTableReleased [IPv4 127 2 2 2, IPv4 127 2 2 1]"
    unfolding rangeOrder_def dm d2 by auto
  have mem: "IPv4 127 2 2 1 \<in> dom exTableReleased" unfolding dm d2 by simp
  note g = first_fit_reuse [where a = "IPv4 127 2 2 1" and port = 80 and m = exTable2
      and held = "[80 \<mapsto> exDest]" and e = exEnv and dest = exDest and rest = "[IPv4 127 2 2 2]",
      THEN conjunct2, THEN conjunct2, THEN conjunct2, THEN mp]
  have upd: "exTable2(IPv4 127 2 2 1 \<mapsto> [80 \<mapsto> exDest]) = exTable2"
    using t2 by (rule map_upd_triv)
  from g t2 have r1: "sourceAddrForPort exEnv 80 exDest [IPv4 127 2 2 1, IPv4 127 2 2 2] exTableReleased =
     Inr (exSrc1, exTable2)"
    unfolding exTableReleased_def by (simp add: upd exSrc1_def)
  note h = first_fit_reuse [where a = "IPv4 127 2 2 1" and port = 80 and m = exTableReleased
      and order = "[IPv4 127 2 2 2, IPv4 127 2 2 1]" and e = exEnv and dest = exDest,
      THEN conjunct2, THEN conjunct2, THEN conjunct1, THEN mp, OF conjI [OF ord conjI [OF mem c1]]]
  have r2: "sourceAddrForPort exEnv 80 exDest [IPv4 127 2 2 2, IPv4 127 2 2 1] exTableReleased =
     Inr (exSrc1, exTable2)"
  proof -
    from h obtain a' ls where a: "exTableReleased a' = Some ls" "ls 80 = None"
      and r: "sourceAddrForPort exEnv 80 exDest [IPv4 127 2 2 2, IPv4 127 2 2 1] exTableReleased =
        Inr (\<lparr>IP = a', Port = 80, Zone = []\<rparr>, exTableReleased(a' \<mapsto> ls(80 \<mapsto> exDest)))"
      by auto
    from a have "a' \<in> dom exTableReleased" by auto
    then have "a' = IPv4 127 2 2 1 \<or> a' = IPv4 127 2 2 2" unfolding dm d2 by simp
    moreover from a c3 have "a' \<noteq> IPv4 127 2 2 2" by (auto simp: claim_def)
    ultimately have a1: "a' = IPv4 127 2 2 1" by simp
    with a have "ls = Map.empty"
      by (simp add: exTableReleased_def deleteClaim_def t2 fun_eq_iff split: if_splits)
    with a1 have "exTableReleased(a' \<mapsto> ls(80 \<mapsto> exDest)) = exTable2"
      by (simp add: exTableReleased_def deleteClaim_def t2 upd)
    with r a1 show ?thesis by (simp add: exSrc1_def)
  qed
  from ord mem c1 c3 dm r2 t2 r1 show ?thesis by (intro conjI)
qed

subsection \<open>C8: failure of the construction of a listener\<close>

text \<open>
  C8. \<^verbatim>\<open>ListenerFromContainerAndPort\<close> returns an error when the container has no name,
  when the public or the private port is zero, and when the derived hostname is empty.
  On every error return the globals are as they were before the call (no port is
  claimed), and the loop of \<^verbatim>\<open>addContainer\<close> goes on to the next port mapping with the
  globals and its result list unchanged: nothing is started and nothing is registered.
\<close>

theorem construction_failure:
  "(Name c = [] \<longrightarrow>
      ListenerFromContainerAndPort e c p order s = Inr (Inl NoContainerName, s)) \<and>
   (Name c \<noteq> [] \<and> (PublicPort p = 0 \<or> PrivatePort p = 0) \<longrightarrow>
      ListenerFromContainerAndPort e c p order s = Inr (Inl PortNotExposed, s)) \<and>
   (Name c \<noteq> [] \<and> PublicPort p \<noteq> 0 \<and> PrivatePort p \<noteq> 0 \<and>
    dnsNameFromContainerName (Name c) = [] \<longrightarrow>
      ListenerFromContainerAndPort e c p order s = Inr (Inl EmptyDNSName, s)) \<and>
   (\<forall>err s'. ListenerFromContainerAndPort e c p order s = Inr (Inl err, s') \<longrightarrow>
      s' = s \<and>
      (containerListeners s (containerPortKey c p) = None \<longrightarrow>
         addLoop e c (p # ps) (order # orders) s out = addLoop e c ps orders s out))"
proof (intro conjI allI impI)
  assume "Name c = []"
  then show "ListenerFromContainerAndPort e c p order s = Inr (Inl NoContainerName, s)"
    by (simp add: ListenerFromContainerAndPort_def)
next
  assume "Name c \<noteq> [] \<and> (PublicPort p = 0 \<or> PrivatePort p = 0)"
  then show "ListenerFromContainerAndPort e c p order s = Inr (Inl PortNotExposed, s)"
    by (auto simp: ListenerFromContainerAndPort_def)
next
  assume "Name c \<noteq> [] \<and> PublicPort p \<noteq> 0 \<and> PrivatePort p \<noteq> 0 \<and>
    dnsNameFromContainerName (Name c) = []"
  then show "ListenerFromContainerAndPort e c p order s = Inr (Inl EmptyDNSName, s)"
    by (simp add: ListenerFromContainerAndPort_def)
next
  fix err s'
  assume "ListenerFromContainerAndPort e c p order s = Inr (Inl err, s')"
  from LFCAP_error [OF this] show "s' = s" by simp
next
  fix err s'
  assume r: "ListenerFromContainerAndPort e c p order s = Inr (Inl err, s')"
    and k: "containerListeners s (containerPortKey c p) = None"
  from LFCAP_error [OF r] have "s' = s" by simp
  with r have "ListenerFromContainerAndPort e c p
      (case order # orders of [] \<Rightarrow> [] | ord # _ \<Rightarrow> ord) s = Inr (Inl err, s)" by simp
  from addLoop_error [OF k this]
  show "addLoop e c (p # ps) (order # orders) s out = addLoop e c ps orders s out" by simp
qed

theorem construction_failure_witness:
  "Name exNameless = [] \<and>
   ListenerFromContainerAndPort exEnv exNameless exPortEphemeral [IPv4 127 2 2 1] exState1 =
     Inr (Inl NoContainerName, exState1) \<and>
   Name exWeb \<noteq> [] \<and> PublicPort exPortUnexposed = 0 \<and>
   ListenerFromContainerAndPort exEnv exWeb exPortUnexposed [IPv4 127 2 2 1] exState1 =
     Inr (Inl PortNotExposed, exState1) \<and>
   Name exHashes \<noteq> [] \<and> PublicPort exPortEphemeral \<noteq> 0 \<and> PrivatePort exPortEphemeral \<noteq> 0 \<and>
   dnsNameFromContainerName (Name exHashes) = [] \<and>
   ListenerFromContainerAndPort exEnv exHashes exPortEphemeral [IPv4 127 2 2 1] exState1 =
     Inr (Inl EmptyDNSName, exState1) \<and>
   containerListeners exState1 (containerPortKey exHashes exPortEphemeral) = None \<and>
   addLoop exEnv exHashes [exPortEphemeral] [[IPv4 127 2 2 1]] exState1 [] = Inr ([], exState1)"
proof -
  note t = construction_failure [where e = exEnv and order = "[IPv4 127 2 2 1]" and s = exState1]
  have n1: "Name exNameless = []" by (simp add: exNameless_def)
  have n2: "Name exWeb \<noteq> []" "PublicPort exPortUnexposed = 0"
    by (simp_all add: exWeb_def exPortUnexposed_def)
  have n3: "Name exHashes \<noteq> []" "PublicPort exPortEphemeral \<noteq> 0"
    "PrivatePort exPortEphemeral \<noteq> 0" "dnsNameFromContainerName (Name exHashes) = []"
    by (simp_all add: exHashes_def exPortEphemeral_def dnsName_hashes)
  have k: "containerListeners exState1 (containerPortKey exHashes exPortEphemeral) = None"
    by (simp add: exState1_def initState_def)
  from t [where c = exNameless and p = exPortEphemeral] n1
  have r1: "ListenerFromContainerAndPort exEnv exNameless exPortEphemeral [IPv4 127 2 2 1] exState1 =
     Inr (Inl NoContainerName, exState1)" by blast
  from t [where c = exWeb and p = exPortUnexposed] n2
  have r2: "ListenerFromContainerAndPort exEnv exWeb exPortUnexposed [IPv4 127 2 2 1] exState1 =
     Inr (Inl PortNotExposed, exState1)" by blast
  note t3 = t [where c = exHashes and p = exPortEphemeral and ps = "[]" and orders = "[]"
        and out = "[]"]
  from t3 n3
  have r3: "ListenerFromContainerAndPort exEnv exHashes exPortEphemeral [IPv4 127 2 2 1] exState1 =
     Inr (Inl EmptyDNSName, exState1)" by blast
  from t3 r3 k
  have "addLoop exEnv exHashes [exPortEphemeral] [[IPv4 127 2 2 1]] exState1 [] =
     addLoop exEnv exHashes [] [] exState1 []" by blast
  then have r4: "addLoop exEnv exHashes [exPortEphemeral] [[IPv4 127 2 2 1]] exState1 [] =
     Inr ([], exState1)" by simp
  from n1 r1 n2 r2 n3 r3 k r4 show ?thesis by (intro conjI)
qed

subsection \<open>C9: full cleanup, bookkeeping before Stop\<close>

lemma containerPortKey_prefix: "prefix (ID c @ '':'') (containerPortKey c p)"
  by (simp add: containerPortKey_def)

text \<open>
  The runs of \<^verbatim>\<open>removeContainer\<close> in which every \<^verbatim>\<open>Stop\<close> returns. The loop runs to
  its end when every \<^verbatim>\<open>Stop\<close> returns. When it has run to its end over a visiting
  order of the registry's keys, no key of the container (a key with the prefix
  \<^verbatim>\<open>cid + ":"\<close>, as \<^verbatim>\<open>containerPortKey\<close> builds them) is registered, and for every
  entry of the container that was registered the hostname is gone from the zone, the
  (address, port) claim is gone from the allocator and \<^verbatim>\<open>Stop\<close> was called. For every
  call of \<^verbatim>\<open>Stop\<close> (also in a run that then blocks) the registry entry, the hostname
  and the claim had been removed before the call.
\<close>

lemma removeContainer_returned:
  "((\<forall>l. closeAllConnsSent e l) \<longrightarrow> fst (removeContainer e cid order s)) \<and>
   (removeContainer e cid order s = (finished, s', stops) \<longrightarrow>
      (\<forall>k l st. (k, l, st) \<in> set stops \<longrightarrow>
         prefix (cid @ '':'') k \<and> containerListeners s k = Some l \<and>
         containerListeners st k = None \<and> dnsZone st (DNSName l) = None \<and>
         claim (sourceAddrs st) (IP (Src l)) (Port (Src l)) = None) \<and>
      (finished \<and> rangeOrder (containerListeners s) order \<longrightarrow>
         (\<forall>k. prefix (cid @ '':'') k \<longrightarrow> containerListeners s' k = None) \<and>
         (\<forall>c p. ID c = cid \<longrightarrow> containerListeners s' (containerPortKey c p) = None) \<and>
         (\<forall>k l. prefix (cid @ '':'') k \<and> containerListeners s k = Some l \<longrightarrow>
            dnsZone s' (DNSName l) = None \<and>
            claim (sourceAddrs s') (IP (Src l)) (Port (Src l)) = None \<and>
            (\<exists>st. (k, l, st) \<in> set stops))))"
proof (intro conjI impI allI)
  assume "\<forall>l. closeAllConnsSent e l"
  then show "fst (removeContainer e cid order s)"
    unfolding removeContainer_def by (rule removeLoop_completes)
next
  fix k l st
  assume r: "removeContainer e cid order s = (finished, s', stops)" and m: "(k, l, st) \<in> set stops"
  from r have r': "removeLoop e cid order s [] = (finished, s', stops)"
    by (simp add: removeContainer_def)
  from removeLoop_stops [OF r' m]
  have f: "prefix (cid @ '':'') k \<and> containerListeners s k = Some l \<and>
    containerListeners st k = None \<and> dnsZone st (DNSName l) = None \<and>
    claim (sourceAddrs st) (IP (Src l)) (Port (Src l)) = None" by simp
  from f show "prefix (cid @ '':'') k" by blast
  from f show "containerListeners s k = Some l" by blast
  from f show "containerListeners st k = None" by blast
  from f show "dnsZone st (DNSName l) = None" by blast
  from f show "claim (sourceAddrs st) (IP (Src l)) (Port (Src l)) = None" by blast
next
  fix k
  assume r: "removeContainer e cid order s = (finished, s', stops)"
    and d: "finished \<and> rangeOrder (containerListeners s) order" and p: "prefix (cid @ '':'') k"
  from r d have r': "removeLoop e cid order s [] = (True, s', stops)"
    by (simp add: removeContainer_def)
  from d have "k \<in> set order \<or> containerListeners s k = None"
    by (auto simp: rangeOrder_def)
  with removeLoop_registry [OF r', of k] p show "containerListeners s' k = None" by auto
next
  fix c :: Container and p :: APIPort
  assume r: "removeContainer e cid order s = (finished, s', stops)"
    and d: "finished \<and> rangeOrder (containerListeners s) order" and i: "ID c = cid"
  from r d have r': "removeLoop e cid order s [] = (True, s', stops)"
    by (simp add: removeContainer_def)
  let ?k = "containerPortKey c p"
  from i have p: "prefix (cid @ '':'') ?k" using containerPortKey_prefix [of c p] by simp
  from d have "?k \<in> set order \<or> containerListeners s ?k = None"
    by (auto simp: rangeOrder_def)
  with removeLoop_registry [OF r', of ?k] p show "containerListeners s' ?k = None" by auto
next
  fix k l
  assume r: "removeContainer e cid order s = (finished, s', stops)"
    and d: "finished \<and> rangeOrder (containerListeners s) order"
    and h: "prefix (cid @ '':'') k \<and> containerListeners s k = Some l"
  from r d have r': "removeLoop e cid order s [] = (True, s', stops)"
    by (simp add: removeContainer_def)
  from d h have "k \<in> set order" by (auto simp: rangeOrder_def)
  with h have f: "dnsZone s' (DNSName l) = None \<and>
      claim (sourceAddrs s') (IP (Src l)) (Port (Src l)) = None \<and>
      (\<exists>st. (k, l, st) \<in> set stops)"
    by (intro removeLoop_unpublished [OF r']) simp_all
  from f show "dnsZone s' (DNSName l) = None" by blast
  from f show "claim (sourceAddrs s') (IP (Src l)) (Port (Src l)) = None" by blast
  from f show "\<exists>st. (k, l, st) \<in> set stops" by blast
qed

lemma removeContainer_returned_example:
  "rangeOrder (containerListeners exStateAB) [''bb:8080'', ''aa:8080''] \<and>
   prefix (''aa'' @ '':'') ''aa:8080'' \<and>
   containerListeners exStateAB ''aa:8080'' = Some exListenerA \<and>
   fst (removeContainer exEnvWeb ''aa'' [''bb:8080'', ''aa:8080''] exStateAB) \<and>
   containerListeners
     (fst (snd (removeContainer exEnvWeb ''aa'' [''bb:8080'', ''aa:8080''] exStateAB)))
     ''aa:8080'' = None \<and>
   dnsZone
     (fst (snd (removeContainer exEnvWeb ''aa'' [''bb:8080'', ''aa:8080''] exStateAB)))
     ''web-1'' = None \<and>
   claim (sourceAddrs
     (fst (snd (removeContainer exEnvWeb ''aa'' [''bb:8080'', ''aa:8080''] exStateAB))))
     (IPv4 127 2 2 1) 8080 = None \<and>
   (\<exists>st. (''aa:8080'', exListenerA, st) \<in>
      set (snd (snd (removeContainer exEnvWeb ''aa'' [''bb:8080'', ''aa:8080''] exStateAB))) \<and>
      containerListeners st ''aa:8080'' = None \<and> dnsZone st ''web-1'' = None \<and>
      claim (sourceAddrs st) (IPv4 127 2 2 1) 8080 = None)"
proof -
  let ?r = "removeContainer exEnvWeb ''aa'' [''bb:8080'', ''aa:8080''] exStateAB"
  note t = removeContainer_returned [where e = exEnvWeb and cid = "''aa''"
      and order = "[''bb:8080'', ''aa:8080'']" and s = exStateAB
      and finished = "fst ?r" and s' = "fst (snd ?r)" and stops = "snd (snd ?r)"]
  have pr: "prefix (''aa'' @ '':'') ''aa:8080''" by simp
  have la: "containerListeners exStateAB ''aa:8080'' = Some exListenerA"
    by (simp add: exStateAB_def)
  have nm: "DNSName exListenerA = ''web-1''" "IP (Src exListenerA) = IPv4 127 2 2 1"
    "Port (Src exListenerA) = 8080"
    by (simp_all add: exListenerA_def)
  from t ex_all_sent have dn: "fst ?r" by blast
  have eq: "?r = (fst ?r, fst (snd ?r), snd (snd ?r))" by simp
  from t eq have
    ord: "\<forall>k l st. (k, l, st) \<in> set (snd (snd ?r)) \<longrightarrow>
         prefix (''aa'' @ '':'') k \<and> containerListeners exStateAB k = Some l \<and>
         containerListeners st k = None \<and> dnsZone st (DNSName l) = None \<and>
         claim (sourceAddrs st) (IP (Src l)) (Port (Src l)) = None"
    and cln: "fst ?r \<and> rangeOrder (containerListeners exStateAB) [''bb:8080'', ''aa:8080''] \<longrightarrow>
         (\<forall>k. prefix (''aa'' @ '':'') k \<longrightarrow> containerListeners (fst (snd ?r)) k = None) \<and>
         (\<forall>c p. ID c = ''aa'' \<longrightarrow> containerListeners (fst (snd ?r)) (containerPortKey c p) = None) \<and>
         (\<forall>k l. prefix (''aa'' @ '':'') k \<and> containerListeners exStateAB k = Some l \<longrightarrow>
            dnsZone (fst (snd ?r)) (DNSName l) = None \<and>
            claim (sourceAddrs (fst (snd ?r))) (IP (Src l)) (Port (Src l)) = None \<and>
            (\<exists>st. (k, l, st) \<in> set (snd (snd ?r))))"
    by blast+
  from cln dn ex_order_AB have
    c1: "\<forall>k. prefix (''aa'' @ '':'') k \<longrightarrow> containerListeners (fst (snd ?r)) k = None"
    and c3: "\<forall>k l. prefix (''aa'' @ '':'') k \<and> containerListeners exStateAB k = Some l \<longrightarrow>
            dnsZone (fst (snd ?r)) (DNSName l) = None \<and>
            claim (sourceAddrs (fst (snd ?r))) (IP (Src l)) (Port (Src l)) = None \<and>
            (\<exists>st. (k, l, st) \<in> set (snd (snd ?r)))"
    by blast+
  from c1 pr have r1: "containerListeners (fst (snd ?r)) ''aa:8080'' = None" by blast
  from c3 pr la have r2: "dnsZone (fst (snd ?r)) (DNSName exListenerA) = None"
    and r3: "claim (sourceAddrs (fst (snd ?r))) (IP (Src exListenerA)) (Port (Src exListenerA)) = None"
    and r4: "\<exists>st. (''aa:8080'', exListenerA, st) \<in> set (snd (snd ?r))"
    by blast+
  from r4 obtain st where st: "(''aa:8080'', exListenerA, st) \<in> set (snd (snd ?r))" by blast
  with ord have "containerListeners st ''aa:8080'' = None \<and> dnsZone st (DNSName exListenerA) = None \<and>
         claim (sourceAddrs st) (IP (Src exListenerA)) (Port (Src exListenerA)) = None"
    by blast
  with st have r5: "\<exists>st. (''aa:8080'', exListenerA, st) \<in> set (snd (snd ?r)) \<and>
      containerListeners st ''aa:8080'' = None \<and> dnsZone st ''web-1'' = None \<and>
      claim (sourceAddrs st) (IPv4 127 2 2 1) 8080 = None"
    unfolding nm by blast
  from ex_order_AB pr la dn r1 r2 [unfolded nm] r3 [unfolded nm] r5
  show ?thesis by (intro conjI)
qed

text \<open>
  C9 fails on the code in the runs in which a \<^verbatim>\<open>Stop\<close> does not return. \<^verbatim>\<open>Stop\<close>
  closes the listening socket and then sends on the unbuffered channel
  \<^verbatim>\<open>closeAllConns\<close>; the accept loop, woken by the closed socket, sends on the same
  channel; the tracker receives once and returns. When the tracker takes the accept
  loop's send, the send in \<^verbatim>\<open>Stop\<close> is never received and \<^verbatim>\<open>removeContainer\<close> stays
  in its first \<^verbatim>\<open>Stop\<close>. For a container with two started listeners it has then
  removed the first entry only: the second entry is still registered and its port is
  still claimed.
\<close>

theorem full_cleanup_blocked:
  "addContainer exEnvBlocked ''aa'' [[], [IPv4 127 2 2 1]] initState =
     Inr ([exListenerA, exListenerC], exStateTwo) \<and>
   rangeOrder (containerListeners exStateTwo) [''aa:8080'', ''aa:9090''] \<and>
   \<not> fst (removeContainer exEnvBlocked ''aa'' [''aa:8080'', ''aa:9090''] exStateTwo) \<and>
   snd (snd (removeContainer exEnvBlocked ''aa'' [''aa:8080'', ''aa:9090''] exStateTwo)) =
     [(''aa:8080'', exListenerA, afterDelete exStateTwo ''aa:8080'' exListenerA)] \<and>
   containerPortKey exWebTwo exPortSecond = ''aa:9090'' \<and>
   containerListeners
     (fst (snd (removeContainer exEnvBlocked ''aa'' [''aa:8080'', ''aa:9090''] exStateTwo)))
     ''aa:9090'' = Some exListenerC \<and>
   claim (sourceAddrs
     (fst (snd (removeContainer exEnvBlocked ''aa'' [''aa:8080'', ''aa:9090''] exStateTwo))))
     (IP (Src exListenerC)) (Port (Src exListenerC)) = Some exDestSecond \<and>
   dnsZone
     (fst (snd (removeContainer exEnvBlocked ''aa'' [''aa:8080'', ''aa:9090''] exStateTwo)))
     ''web-1'' = None"
proof -
  have o: "rangeOrder (containerListeners exStateTwo) [''aa:8080'', ''aa:9090'']"
    by (auto simp: rangeOrder_def exStateTwo_def)
  have l: "containerListeners (afterDelete exStateTwo ''aa:8080'' exListenerA) ''aa:9090'' =
      Some exListenerC"
    by (simp add: afterDelete_simps exStateTwo_def)
  have "claim (sourceAddrs (afterDelete exStateTwo ''aa:8080'' exListenerA))
      (IP (Src exListenerC)) (Port (Src exListenerC)) =
      claim (sourceAddrs exStateTwo) (IP (Src exListenerC)) (Port (Src exListenerC))"
    by (simp add: afterDelete_simps exListenerA_def exListenerC_def)
  also have "\<dots> = Some exDestSecond"
    by (simp add: claim_def exStateTwo_def exListenerC_def)
  finally have c: "claim (sourceAddrs (afterDelete exStateTwo ''aa:8080'' exListenerA))
      (IP (Src exListenerC)) (Port (Src exListenerC)) = Some exDestSecond" .
  have z: "dnsZone (afterDelete exStateTwo ''aa:8080'' exListenerA) ''web-1'' = None"
    by (simp add: afterDelete_simps exListenerA_def)
  from ex_add_two o ex_key_two_second l c z show ?thesis
    unfolding ex_remove_two_blocked by simp
qed

subsection \<open>C10: hostname collisions\<close>



end
